theory Spec2Isabelle
  imports Main "HOL-Library.AList"
begin

section \<open>Round state machine (core/game/state_manager.py)\<close>

text \<open>
  \<^verbatim>\<open>class GameState(Enum)\<close> and the fields of \<^verbatim>\<open>GameStateManager\<close>.  Python integers
  are unbounded, hence \<open>int\<close>.  The logger and the stored command callback are never used
  by the methods modelled here and are left out.
\<close>

datatype GameState = WAITING | WARMUP | RUNNING

record GameStateManager =
  current_state :: GameState
  round_count :: int
  warmup_round_count :: int
  max_rounds :: int

text \<open>
  \<^verbatim>\<open>__init__\<close>: \<^verbatim>\<open>max_rounds = len(settings.latencies) * settings.repeats\<close>; the two
  settings are parameters.
\<close>

definition init_GameStateManager :: "int list \<Rightarrow> int \<Rightarrow> GameStateManager" where
  "init_GameStateManager latencies repeats =
     \<lparr>current_state = WAITING, round_count = 1, warmup_round_count = 0,
      max_rounds = int (length latencies) * repeats\<rparr>"

text \<open>The result dictionaries of the handlers, one record per key set.\<close>

record transition_result =
  state_changed :: bool
  transition_actions :: "string list"

record shutdown_result =
  round_completed :: bool
  experiment_finished :: bool
  actions :: "string list"

definition handle_warmup_detected ::
  "GameStateManager \<Rightarrow> transition_result \<times> GameStateManager" where
  "handle_warmup_detected g =
     (case current_state g of
        WAITING \<Rightarrow>
          (\<lparr>state_changed = True, transition_actions = []\<rparr>, g\<lparr>current_state := WARMUP\<rparr>)
      | WARMUP \<Rightarrow> (\<lparr>state_changed = False, transition_actions = []\<rparr>, g)
      | RUNNING \<Rightarrow>
          (\<lparr>state_changed = True, transition_actions = []\<rparr>, g\<lparr>current_state := WARMUP\<rparr>))"

definition handle_game_initialization_detected ::
  "GameStateManager \<Rightarrow> transition_result \<times> GameStateManager" where
  "handle_game_initialization_detected g =
     (\<lparr>state_changed = True, transition_actions = []\<rparr>, g\<lparr>current_state := RUNNING\<rparr>)"

definition handle_match_start_detected ::
  "GameStateManager \<Rightarrow> transition_result \<times> GameStateManager" where
  "handle_match_start_detected g =
     (if current_state g = WARMUP
      then (\<lparr>state_changed = True,
             transition_actions = [''start_match_recording'', ''apply_latency'']\<rparr>,
            g\<lparr>current_state := RUNNING\<rparr>)
      else (\<lparr>state_changed = False, transition_actions = []\<rparr>, g))"

definition handle_match_shutdown_detected ::
  "GameStateManager \<Rightarrow> shutdown_result \<times> GameStateManager" where
  "handle_match_shutdown_detected g =
     (if current_state g = RUNNING
      then (let g' = g\<lparr>round_count := round_count g + 1\<rparr> in
            if round_count g' \<ge> max_rounds g'
            then (\<lparr>round_completed = False, experiment_finished = True, actions = []\<rparr>, g')
            else (\<lparr>round_completed = True, experiment_finished = False,
                   actions = [''rotate_latency'']\<rparr>, g'))
      else (\<lparr>round_completed = False, experiment_finished = False, actions = []\<rparr>, g))"

definition transition_to :: "GameState \<Rightarrow> GameStateManager \<Rightarrow> GameStateManager" where
  "transition_to new_state g = g\<lparr>current_state := new_state\<rparr>"

definition reset_to_waiting :: "GameStateManager \<Rightarrow> GameStateManager" where
  "reset_to_waiting g = transition_to WAITING g"

definition get_current_state :: "GameStateManager \<Rightarrow> GameState" where
  "get_current_state g = current_state g"

definition is_experiment_finished :: "GameStateManager \<Rightarrow> bool" where
  "is_experiment_finished g \<longleftrightarrow> current_state g = RUNNING \<and> round_count g \<ge> max_rounds g"

text \<open>
  The state-changing operations of the class as one datatype, so that a property of
  ``every operation'' and of every sequence of operations can be stated.
\<close>

datatype gsm_op =
    WarmupDetected
  | GameInitializationDetected
  | MatchStartDetected
  | MatchShutdownDetected
  | TransitionTo GameState
  | ResetToWaiting

fun apply_op :: "gsm_op \<Rightarrow> GameStateManager \<Rightarrow> GameStateManager" where
  "apply_op WarmupDetected g = snd (handle_warmup_detected g)"
| "apply_op GameInitializationDetected g = snd (handle_game_initialization_detected g)"
| "apply_op MatchStartDetected g = snd (handle_match_start_detected g)"
| "apply_op MatchShutdownDetected g = snd (handle_match_shutdown_detected g)"
| "apply_op (TransitionTo s) g = transition_to s g"
| "apply_op ResetToWaiting g = reset_to_waiting g"

fun run_ops :: "gsm_op list \<Rightarrow> GameStateManager \<Rightarrow> GameStateManager" where
  "run_ops [] g = g"
| "run_ops (op # ops) g = run_ops ops (apply_op op g)"

section \<open>Rendering integers (Python's \<^verbatim>\<open>str(int)\<close> inside f-strings)\<close>

definition digit_char :: "nat \<Rightarrow> char" where
  "digit_char d = char_of (48 + d)"

function str_nat :: "nat \<Rightarrow> string" where
  "str_nat n = (if n < 10 then [digit_char n] else str_nat (n div 10) @ [digit_char (n mod 10)])"
  by pat_completeness auto
termination
  by (relation "measure (\<lambda>n. n)") auto

declare str_nat.simps [simp del]

definition str_int :: "int \<Rightarrow> string" where
  "str_int i = (if i < 0 then CHR ''-'' # str_nat (nat (- i)) else str_nat (nat i))"

text \<open>\<^verbatim>\<open>sep.join(parts)\<close>.\<close>

fun join :: "string \<Rightarrow> string list \<Rightarrow> string" where
  "join sep [] = []"
| "join sep [x] = x"
| "join sep (x # y # ys) = x @ sep @ join sep (y # ys)"

section \<open>Client tracking (core/network/network_manager.py)\<close>

text \<open>
  A Python \<^verbatim>\<open>dict\<close> keeps its keys in insertion order and \<^verbatim>\<open>d[k] = v\<close> overwrites in place or
  appends: this is \<open>AList.update\<close> on an association list.  Optional arguments are
  \<open>option\<close> values; \<^verbatim>\<open>if name:\<close> is false for \<^verbatim>\<open>None\<close> and for the empty string.
  The callback \<^verbatim>\<open>send_command\<close> may be \<^verbatim>\<open>None\<close>: \<open>has_send_command\<close> records whether it is
  set, and the commands a method passes to it are returned as a list.
\<close>

definition BOT_NAMES :: "string list" where
  "BOT_NAMES = [''Angelyss'', ''Arachna'', ''Major'', ''Sarge'', ''Skelebot'', ''Merman'',
                ''Beret'', ''Kyonshi'']"

record NetworkManager =
  interface :: string
  has_send_command :: bool
  ip_latency_map :: "(string \<times> int) list"
  client_ip_map :: "(int \<times> string) list"
  client_type_map :: "(int \<times> string) list"
  client_name_map :: "(int \<times> string) list"
  obs_status_map :: "(string \<times> bool) list"
  player_count :: int
  human_count :: int
  bot_count :: int
  current_latencies :: "int list"
  latency_round_count :: int
  enabled :: bool

definition init_NetworkManager :: "string \<Rightarrow> bool \<Rightarrow> int list \<Rightarrow> bool \<Rightarrow> NetworkManager" where
  "init_NetworkManager iface has_cb latencies enable_latency_control =
     \<lparr>interface = iface, has_send_command = has_cb, ip_latency_map = [],
      client_ip_map = [], client_type_map = [], client_name_map = [], obs_status_map = [],
      player_count = 0, human_count = 0, bot_count = 0, current_latencies = latencies,
      latency_round_count = 0, enabled = enable_latency_control\<rparr>"

definition truthy :: "string option \<Rightarrow> bool" where
  "truthy s = (case s of None \<Rightarrow> False | Some x \<Rightarrow> x \<noteq> [])"

definition count_type :: "string \<Rightarrow> (int \<times> string) list \<Rightarrow> int" where
  "count_type t m = int (length (filter (\<lambda>(cid, ctype). ctype = t) m))"

definition add_client ::
  "int \<Rightarrow> string option \<Rightarrow> int option \<Rightarrow> string option \<Rightarrow> bool \<Rightarrow> NetworkManager
     \<Rightarrow> NetworkManager" where
  "add_client client_id ip latency name is_bot nm =
     (let is_bot1 = (case name of
                       Some n \<Rightarrow> if n \<noteq> [] \<and> n \<in> set BOT_NAMES then True else is_bot
                     | None \<Rightarrow> is_bot);
          nm1 = nm\<lparr>client_type_map :=
                     AList.update client_id (if is_bot1 then ''BOT'' else ''HUMAN'')
                       (client_type_map nm)\<rparr>;
          nm2 = (case name of
                   Some n \<Rightarrow>
                     if n \<noteq> []
                     then nm1\<lparr>client_name_map := AList.update client_id n (client_name_map nm1)\<rparr>
                     else nm1
                 | None \<Rightarrow> nm1);
          nm3 =
            (if \<not> is_bot1 \<and> truthy ip
             then (case ip of
                     None \<Rightarrow> nm2
                   | Some a \<Rightarrow>
                       (let nm_ip =
                          (if a \<notin> fst ` set (ip_latency_map nm2)
                           then nm2\<lparr>client_ip_map := AList.update client_id a (client_ip_map nm2),
                                    ip_latency_map :=
                                      AList.update a (case latency of Some l \<Rightarrow> l | None \<Rightarrow> 0)
                                        (ip_latency_map nm2),
                                    obs_status_map := AList.update a False (obs_status_map nm2)\<rparr>
                           else nm2\<lparr>client_ip_map :=
                                      AList.update client_id a (client_ip_map nm2)\<rparr>)
                        in nm_ip\<lparr>human_count := count_type ''HUMAN'' (client_type_map nm_ip)\<rparr>))
             else if is_bot1
             then nm2\<lparr>bot_count := count_type ''BOT'' (client_type_map nm2)\<rparr>
             else nm2)
      in nm3\<lparr>player_count := human_count nm3 + bot_count nm3\<rparr>)"

text \<open>
  \<^verbatim>\<open>assign_latencies\<close>: round-robin over the keys in dictionary order.  The index
  \<open>i mod length latencies\<close> is in range because the empty list returns early.
\<close>

definition assign_latencies :: "int list \<Rightarrow> NetworkManager \<Rightarrow> NetworkManager" where
  "assign_latencies latencies nm =
     (if ip_latency_map nm = [] \<or> latencies = [] then nm
      else nm\<lparr>ip_latency_map :=
                 fold (\<lambda>(i, ip) m. AList.update ip (latencies ! (i mod length latencies)) m)
                   (enumerate 0 (map fst (ip_latency_map nm))) (ip_latency_map nm)\<rparr>)"

text \<open>
  \<^verbatim>\<open>rotate_latencies\<close> returns its boolean, the new manager and the commands handed to the
  callback.  The slices \<^verbatim>\<open>xs[1:] + xs[:1]\<close> are \<open>drop 1 xs @ take 1 xs\<close>.
\<close>

definition rotate_latencies :: "NetworkManager \<Rightarrow> bool \<times> NetworkManager \<times> string list" where
  "rotate_latencies nm =
     (if \<not> enabled nm then (True, nm, [])
      else
        (let cur = drop 1 (current_latencies nm) @ take 1 (current_latencies nm);
             nm1 = nm\<lparr>current_latencies := cur,
                      latency_round_count := latency_round_count nm + 1\<rparr>;
             nm2 = assign_latencies cur nm1
         in (True, nm2,
             if has_send_command nm2
             then [''say Round '' @ str_int (latency_round_count nm2) @ '': New latencies - '' @
                   join '', '' (map (\<lambda>lat. str_int lat @ ''ms'') cur)]
             else [])))"

text \<open>
  \<^verbatim>\<open>apply_latency_rules\<close>: the traffic shaping itself (\<^verbatim>\<open>NetworkUtils.apply_latency_rules\<close>)
  runs external commands; \<open>tc_ok\<close> says whether it returned normally (an exception makes
  the method return \<^verbatim>\<open>False\<close>).  The manager itself is not changed.
\<close>

definition apply_latency_rules :: "bool \<Rightarrow> NetworkManager \<Rightarrow> bool \<times> string list" where
  "apply_latency_rules tc_ok nm =
     (if \<not> enabled nm
      then (True, if has_send_command nm then [''say Latency control disabled''] else [])
      else if ip_latency_map nm = [] then (False, [])
      else if \<not> tc_ok then (False, [])
      else (True,
            if has_send_command nm
            then [''say Latency rules applied to '' @
                  str_int (int (length (ip_latency_map nm))) @ '' clients'']
            else []))"

definition is_enabled :: "NetworkManager \<Rightarrow> bool" where
  "is_enabled nm = enabled nm"

section \<open>Shutdown dispatch (core/server/shutdown_strategies.py)\<close>

text \<open>
  The strategies see the adapter through its interface.  The part they touch: the round
  state machine, the network manager, the flag \<^verbatim>\<open>insufficient_humans\<close>, and two ways of
  causing effects, \<^verbatim>\<open>send_command_sync\<close> and \<^verbatim>\<open>run_async\<close>.  Effects are appended to a
  log.  \<^verbatim>\<open>run_async\<close> schedules only when a loop is set and no shutdown was requested.
  The scheduled recording coroutines only read the round information.
  \<^verbatim>\<open>GameManager.set_next_round_with_warmup_phase\<close> sends two commands through the same
  callback; \<open>warmup_time\<close> is \<^verbatim>\<open>settings.warmup_time\<close>.
\<close>

datatype coroutine = Stop_match_recording | Start_match_recording

datatype effect = Command string | Scheduled coroutine

record adapter =
  game_state_manager :: GameStateManager
  network_manager :: NetworkManager
  insufficient_humans :: bool
  async_loop_set :: bool
  shutdown_requested :: bool
  effects :: "effect list"

definition run_async :: "coroutine \<Rightarrow> adapter \<Rightarrow> adapter" where
  "run_async coro a =
     (if async_loop_set a \<and> \<not> shutdown_requested a
      then a\<lparr>effects := effects a @ [Scheduled coro]\<rparr> else a)"

definition send_command_sync :: "string \<Rightarrow> adapter \<Rightarrow> adapter" where
  "send_command_sync command a = a\<lparr>effects := effects a @ [Command command]\<rparr>"

definition send_commands :: "string list \<Rightarrow> adapter \<Rightarrow> adapter" where
  "send_commands cmds a = fold send_command_sync cmds a"

definition set_next_round_with_warmup_phase :: "int \<Rightarrow> adapter \<Rightarrow> adapter" where
  "set_next_round_with_warmup_phase warmup_time a =
     send_command_sync (''set g_warmup '' @ str_int warmup_time)
       (send_command_sync ''set g_doWarmup 1'' a)"

definition process_match_shutdown_actions :: "string list \<Rightarrow> adapter \<Rightarrow> adapter" where
  "process_match_shutdown_actions acts a =
     (if ''rotate_latency'' \<in> set acts
      then (case rotate_latencies (network_manager a) of
              (ok, nm', cmds) \<Rightarrow> send_commands cmds (a\<lparr>network_manager := nm'\<rparr>))
      else a)"

definition MatchShutdownStrategy_handle :: "adapter \<Rightarrow> adapter" where
  "MatchShutdownStrategy_handle a =
     (let a1 = run_async Stop_match_recording a in
      case handle_match_shutdown_detected (game_state_manager a1) of
        (result, g') \<Rightarrow>
          (let a2 = a1\<lparr>game_state_manager := g'\<rparr>;
               a3 = process_match_shutdown_actions (actions result) a2;
               a4 = (if experiment_finished result
                     then send_command_sync ''killserver'' a3
                     else send_command_sync ''say Match completed!'' a3)
           in a4\<lparr>game_state_manager := reset_to_waiting (game_state_manager a4)\<rparr>))"

definition WarmupShutdownStrategy_handle :: "int \<Rightarrow> bool \<Rightarrow> adapter \<Rightarrow> adapter" where
  "WarmupShutdownStrategy_handle warmup_time tc_ok a =
     (if insufficient_humans a then set_next_round_with_warmup_phase warmup_time a
      else
        (case handle_match_start_detected (game_state_manager a) of
           (result, g') \<Rightarrow>
             (let a1 = a\<lparr>game_state_manager := g'\<rparr>;
                  a2 = (if ''start_match_recording'' \<in> set (transition_actions result)
                        then run_async Start_match_recording a1 else a1);
                  a3 = (if ''apply_latency'' \<in> set (transition_actions result)
                        then (if is_enabled (network_manager a2)
                              then send_commands
                                     (snd (apply_latency_rules tc_ok (network_manager a2))) a2
                              else a2)
                        else a2)
              in a3\<lparr>game_state_manager := reset_to_waiting (game_state_manager a3)\<rparr>)))"

text \<open>An adapter in warmup whose player threshold is not met.\<close>

definition waiting_for_players :: adapter where
  "waiting_for_players =
     \<lparr>game_state_manager =
        \<lparr>current_state = WARMUP, round_count = 1, warmup_round_count = 0, max_rounds = 4\<rparr>,
      network_manager = init_NetworkManager ''enp1s0'' True [10, 50] False,
      insufficient_humans = True, async_loop_set = True, shutdown_requested = False,
      effects = []\<rparr>"

section \<open>Python strings\<close>

text \<open>
  A Python \<^verbatim>\<open>str\<close> is modelled as a \<open>string\<close> whose characters are read as the code points
  below 256.  \<open>isspace\<close> is \<^verbatim>\<open>str.isspace\<close> on one such character (the characters that
  \<^verbatim>\<open>str.strip()\<close>, \<^verbatim>\<open>str.split()\<close> and the pattern \<^verbatim>\<open>\s\<close> treat as whitespace).
\<close>

definition isspace :: "char \<Rightarrow> bool" where
  "isspace c \<longleftrightarrow>
     c \<in> set [CHR 0x09, CHR 0x0A, CHR 0x0B, CHR 0x0C, CHR 0x0D, CHR 0x1C, CHR 0x1D, CHR 0x1E,
              CHR 0x1F, CHR 0x20, CHR 0x85, CHR 0xA0]"

definition lstrip :: "string \<Rightarrow> string" where
  "lstrip s = dropWhile isspace s"

definition rstrip :: "string \<Rightarrow> string" where
  "rstrip s = rev (dropWhile isspace (rev s))"

definition strip :: "string \<Rightarrow> string" where
  "strip s = rstrip (lstrip s)"

text \<open>\<^verbatim>\<open>s.split(sep)\<close> for a separator of one character: always at least one segment.\<close>

fun split_on :: "char \<Rightarrow> string \<Rightarrow> string list" where
  "split_on sep [] = [[]]"
| "split_on sep (c # cs) =
     (if c = sep then [] # split_on sep cs
      else (case split_on sep cs of
              [] \<Rightarrow> [[c]]
            | w # ws \<Rightarrow> (c # w) # ws))"

section \<open>Poll-based adapter: the dedup cache and the event loop (core/adapters/amp/adapter.py)\<close>

text \<open>
  \<^verbatim>\<open>ConsoleEntry\<close>.  The field \<open>timestamp\<close> holds \<^verbatim>\<open>entry.timestamp.isoformat()\<close>, the only
  form in which the loop uses the \<^verbatim>\<open>datetime\<close>.
\<close>

record ConsoleEntry =
  timestamp :: string
  source :: string
  message_type :: string
  contents :: string

text \<open>
  The fields of \<^verbatim>\<open>AMPGameAdapter\<close> that \<^verbatim>\<open>connect\<close>, \<^verbatim>\<open>disconnect\<close> and \<^verbatim>\<open>read_messages\<close>
  use.  \<open>authenticated\<close> is \<^verbatim>\<open>self.api.is_authenticated\<close> (the property \<^verbatim>\<open>is_connected\<close>).
  \<open>seen_messages\<close> is the \<^verbatim>\<open>OrderedDict\<close> \<^verbatim>\<open>_seen_messages\<close>: its keys in insertion order,
  oldest first (all values are \<^verbatim>\<open>None\<close>).  The message processor is any state \<open>'p\<close> with
  a function \<open>process\<close> from a line and a state to a parsed message and the next state.
\<close>

record 'p AMPGameAdapter =
  amp_polling :: bool
  amp_shutdown_requested :: bool
  authenticated :: bool
  seen_messages :: "string list"
  message_processor :: 'p

definition max_seen_cache :: nat where
  "max_seen_cache = 1000"

definition init_AMPGameAdapter :: "'p \<Rightarrow> 'p AMPGameAdapter" where
  "init_AMPGameAdapter p =
     \<lparr>amp_polling = False, amp_shutdown_requested = False, authenticated = False,
      seen_messages = [], message_processor = p\<rparr>"

definition msg_key :: "ConsoleEntry \<Rightarrow> string" where
  "msg_key entry = timestamp entry @ '':'' @ contents entry"

text \<open>
  \<^verbatim>\<open>while len(self._seen_messages) > self._max_seen_cache: self._seen_messages.popitem(last=False)\<close>
\<close>

function evict :: "string list \<Rightarrow> string list" where
  "evict seen = (if length seen > max_seen_cache then evict (drop 1 seen) else seen)"
  by pat_completeness auto
termination
  by (relation "measure length") (auto simp: max_seen_cache_def)

declare evict.simps [simp del]

text \<open>The inner loop over the lines of one entry: blank lines are skipped.\<close>

fun yield_lines ::
  "(string \<Rightarrow> 'p \<Rightarrow> 'm \<times> 'p) \<Rightarrow> string list \<Rightarrow> 'p \<Rightarrow> 'm list \<times> 'p" where
  "yield_lines process [] p = ([], p)"
| "yield_lines process (line # lines) p =
     (if strip line \<noteq> []
      then (case process line p of
              (parsed, p1) \<Rightarrow>
                (case yield_lines process lines p1 of
                   (ms, p2) \<Rightarrow> (parsed # ms, p2)))
      else yield_lines process lines p)"

text \<open>The body of \<^verbatim>\<open>for entry in updates.console_entries\<close>: the messages yielded, the new state.\<close>

definition process_entry ::
  "(string \<Rightarrow> 'p \<Rightarrow> 'm \<times> 'p) \<Rightarrow> ConsoleEntry \<Rightarrow> 'p AMPGameAdapter
     \<Rightarrow> 'm list \<times> 'p AMPGameAdapter" where
  "process_entry process entry a =
     (if msg_key entry \<notin> set (seen_messages a)
      then (let a1 = a\<lparr>seen_messages := evict (seen_messages a @ [msg_key entry])\<rparr> in
            case yield_lines process (split_on CHR 0x0A (contents entry))
                   (message_processor a1) of
              (ms, p) \<Rightarrow> (ms, a1\<lparr>message_processor := p\<rparr>))
      else ([], a))"

fun process_entries ::
  "(string \<Rightarrow> 'p \<Rightarrow> 'm \<times> 'p) \<Rightarrow> ConsoleEntry list \<Rightarrow> 'p AMPGameAdapter
     \<Rightarrow> 'm list \<times> 'p AMPGameAdapter" where
  "process_entries process [] a = ([], a)"
| "process_entries process (entry # entries) a =
     (case process_entry process entry a of
        (ms, a1) \<Rightarrow>
          (case process_entries process entries a1 of
             (ms', a2) \<Rightarrow> (ms @ ms', a2)))"

text \<open>
  One element of the trace is the outcome of one \<^verbatim>\<open>get_updates\<close> call: the console
  entries it returned, or an \<^verbatim>\<open>AMPAPIError\<close> together with whether the re-login that
  follows succeeds.  \<open>poll_loop\<close> is the \<^verbatim>\<open>while\<close> loop run on such a trace: it returns
  the messages yielded and the state when the trace is used up, when the loop condition
  fails, or when the re-login fails (\<^verbatim>\<open>break\<close>).  A failed \<^verbatim>\<open>login\<close> leaves the client
  unauthenticated, a successful one authenticated.
\<close>

datatype poll = Updates "ConsoleEntry list" | Api_error bool

fun poll_loop ::
  "(string \<Rightarrow> 'p \<Rightarrow> 'm \<times> 'p) \<Rightarrow> poll list \<Rightarrow> 'p AMPGameAdapter
     \<Rightarrow> 'm list \<times> 'p AMPGameAdapter" where
  "poll_loop process [] a = ([], a)"
| "poll_loop process (r # rs) a =
     (if amp_polling a \<and> authenticated a \<and> \<not> amp_shutdown_requested a
      then (case r of
              Updates entries \<Rightarrow>
                (case process_entries process entries a of
                   (ms, a1) \<Rightarrow>
                     (case poll_loop process rs a1 of
                        (ms', a2) \<Rightarrow> (ms @ ms', a2)))
            | Api_error relogin_ok \<Rightarrow>
                if relogin_ok then poll_loop process rs (a\<lparr>authenticated := True\<rparr>)
                else ([], a\<lparr>authenticated := False\<rparr>))
      else ([], a))"

definition read_messages ::
  "(string \<Rightarrow> 'p \<Rightarrow> 'm \<times> 'p) \<Rightarrow> poll list \<Rightarrow> 'p AMPGameAdapter
     \<Rightarrow> 'm list \<times> 'p AMPGameAdapter" where
  "read_messages process trace a =
     poll_loop process trace (a\<lparr>amp_polling := True, seen_messages := []\<rparr>)"

text \<open>\<^verbatim>\<open>connect\<close>: \<open>login_ok\<close> says whether \<^verbatim>\<open>self.api.login()\<close> returns or raises.\<close>

definition connect :: "bool \<Rightarrow> 'p AMPGameAdapter \<Rightarrow> bool \<times> 'p AMPGameAdapter" where
  "connect login_ok a =
     (let a1 = a\<lparr>amp_shutdown_requested := False, amp_polling := False\<rparr> in
      if login_ok then (True, a1\<lparr>authenticated := True\<rparr>)
      else (False, a1\<lparr>authenticated := False\<rparr>))"

text \<open>
  \<^verbatim>\<open>disconnect\<close>: returns early when not connected; otherwise \<^verbatim>\<open>api.close()\<close> logs out
  (any exception is swallowed) and the cache is cleared.
\<close>

definition disconnect :: "'p AMPGameAdapter \<Rightarrow> 'p AMPGameAdapter" where
  "disconnect a =
     (let a1 = a\<lparr>amp_polling := False, amp_shutdown_requested := True\<rparr> in
      if \<not> authenticated a1 then a1
      else a1\<lparr>authenticated := False, seen_messages := []\<rparr>)"

text \<open>
  A processor for examples: it returns each line as its message and has no state.
  One console entry, and a poll of a thousand entries with pairwise different contents.
\<close>

definition echo_line :: "string \<Rightarrow> unit \<Rightarrow> string \<times> unit" where
  "echo_line line p = (line, p)"

definition entry_at :: "string \<Rightarrow> ConsoleEntry" where
  "entry_at c =
     \<lparr>timestamp = ''2025-01-01T12:00:00'', source = ''Console'', message_type = ''Console'',
      contents = c\<rparr>"

definition thousand_entries :: "ConsoleEntry list" where
  "thousand_entries = map (\<lambda>i. entry_at (replicate (Suc i) CHR ''a'')) [0..<1000]"

definition polling_adapter :: "unit AMPGameAdapter" where
  "polling_adapter =
     \<lparr>amp_polling = True, amp_shutdown_requested = False, authenticated = True,
      seen_messages = [], message_processor = ()\<rparr>"

text \<open>
  \<open>among_last n k xs\<close>: the key \<open>k\<close> is one of the last \<open>n + 1\<close> keys of the cache.
  \<open>entry_count\<close>: the number of console entries a trace delivers.  \<open>full_adapter\<close>: a
  polling adapter whose cache holds a thousand keys.
\<close>

definition among_last :: "nat \<Rightarrow> string \<Rightarrow> string list \<Rightarrow> bool" where
  "among_last n k xs \<longleftrightarrow> k \<in> set (drop (length xs - Suc n) xs)"

fun entry_count :: "poll list \<Rightarrow> nat" where
  "entry_count [] = 0"
| "entry_count (Updates es # rs) = length es + entry_count rs"
| "entry_count (Api_error b # rs) = entry_count rs"

definition full_adapter :: "unit AMPGameAdapter" where
  "full_adapter = polling_adapter\<lparr>seen_messages := map msg_key thousand_entries\<rparr>"


section \<open>Python string functions used by the parsers\<close>

text \<open>
  \<^verbatim>\<open>s.startswith(p)\<close>, \<^verbatim>\<open>p in s\<close> for strings, and \<^verbatim>\<open>s.split()\<close> (split at runs of
  whitespace, no empty words).
\<close>

fun startswith :: "string \<Rightarrow> string \<Rightarrow> bool" where
  "startswith s [] = True"
| "startswith [] (p # ps) = False"
| "startswith (c # cs) (p # ps) = (c = p \<and> startswith cs ps)"

fun contains :: "string \<Rightarrow> string \<Rightarrow> bool" where
  "contains [] p = (p = [])"
| "contains (c # cs) p = (startswith (c # cs) p \<or> contains cs p)"

fun split_words :: "string \<Rightarrow> string \<Rightarrow> string list" where
  "split_words [] w = (if w = [] then [] else [w])"
| "split_words (c # cs) w =
     (if isspace c then (if w = [] then split_words cs [] else w # split_words cs [])
      else split_words cs (w @ [c]))"

definition split :: "string \<Rightarrow> string list" where
  "split s = split_words s []"

text \<open>
  \<^verbatim>\<open>int(s)\<close> for a string: surrounding whitespace is ignored, one sign is allowed, then
  decimal digits, where single underscores may stand between digits.  \<open>None\<close> is the
  \<^verbatim>\<open>ValueError\<close>.  Among the code points below 256 the decimal digits are \<^verbatim>\<open>0\<close> to \<^verbatim>\<open>9\<close>.
  The whitespace that \<^verbatim>\<open>int\<close> ignores is not that of \<^verbatim>\<open>str.strip\<close>: the separators 0x1C to
  0x1F are whitespace for \<^verbatim>\<open>str.strip\<close> and an error for \<^verbatim>\<open>int\<close> (\<open>int_space\<close>, \<open>int_strip\<close>).
  A string with more than \<open>int_max_str_digits\<close> digits is an error as well, whatever the
  digits are: this is the interpreter's limit on such conversions, 4300 unless the
  program or its environment changes it, which nothing in the program does.  The sign,
  the underscores and the whitespace do not count as digits.
\<close>

definition int_space :: "char \<Rightarrow> bool" where
  "int_space c \<longleftrightarrow>
     c \<in> set [CHR 0x09, CHR 0x0A, CHR 0x0B, CHR 0x0C, CHR 0x0D, CHR 0x20, CHR 0x85, CHR 0xA0]"

definition int_strip :: "string \<Rightarrow> string" where
  "int_strip s = rev (dropWhile int_space (rev (dropWhile int_space s)))"

definition int_max_str_digits :: int where
  "int_max_str_digits = 4300"

definition digit_count :: "string \<Rightarrow> int" where
  "digit_count s = int (length (filter (\<lambda>c. c \<in> set ''0123456789'') s))"

definition isdigit :: "char \<Rightarrow> bool" where
  "isdigit c \<longleftrightarrow> c \<in> set ''0123456789''"

definition digit_val :: "char \<Rightarrow> int" where
  "digit_val c = of_char c - 48"

fun parse_digits :: "int \<Rightarrow> string \<Rightarrow> int option" where
  "parse_digits acc [] = Some acc"
| "parse_digits acc [c] = (if isdigit c then Some (10 * acc + digit_val c) else None)"
| "parse_digits acc (c # d # ds) =
     (if isdigit c then parse_digits (10 * acc + digit_val c) (d # ds)
      else if c = CHR ''_'' \<and> isdigit d then parse_digits (10 * acc + digit_val d) ds
      else None)"

definition parse_nat :: "string \<Rightarrow> int option" where
  "parse_nat s =
     (case s of
        [] \<Rightarrow> None
      | c # cs \<Rightarrow>
          if digit_count s > int_max_str_digits then None
          else if isdigit c then parse_digits (digit_val c) cs else None)"

definition py_int :: "string \<Rightarrow> int option" where
  "py_int s =
     (case int_strip s of
        [] \<Rightarrow> None
      | c # cs \<Rightarrow>
          if c = CHR ''-'' then map_option uminus (parse_nat cs)
          else if c = CHR ''+'' then parse_nat cs
          else parse_nat (c # cs))"

text \<open>
  The words of the specification: a decimal segment is a non-empty string of the digits
  \<^verbatim>\<open>0\<close> to \<^verbatim>\<open>9\<close>, and \<open>decimal_value\<close> is the number it denotes.
\<close>

definition decimal_segment :: "string \<Rightarrow> bool" where
  "decimal_segment s \<longleftrightarrow> s \<noteq> [] \<and> list_all isdigit s"

definition decimal_value :: "string \<Rightarrow> int" where
  "decimal_value s = foldl (\<lambda>acc c. 10 * acc + digit_val c) 0 s"

section \<open>IP validation (the two status parsers' \<^verbatim>\<open>_is_valid_ip\<close>)\<close>

text \<open>
  core/adapters/openarena/status_parser.py: the loop over the parts returns \<^verbatim>\<open>False\<close> at
  the first part out of range; a part that \<^verbatim>\<open>int\<close> rejects raises \<^verbatim>\<open>ValueError\<close>, which the
  method turns into \<^verbatim>\<open>False\<close>.
\<close>

fun octets_in_range :: "string list \<Rightarrow> bool" where
  "octets_in_range [] = True"
| "octets_in_range (part # parts) =
     (case py_int part of
        None \<Rightarrow> False
      | Some num \<Rightarrow> if num < 0 \<or> num > 255 then False else octets_in_range parts)"

definition OAStatusParser_is_valid_ip :: "string \<Rightarrow> bool" where
  "OAStatusParser_is_valid_ip ip =
     (if ip = [] then False
      else (let parts = split_on CHR ''.'' ip in
            if length parts \<noteq> 4 then False else octets_in_range parts))"

text \<open>
  core/adapters/amp/status_parser.py: \<^verbatim>\<open>all(0 <= int(p) <= 255 for p in parts)\<close> stops at
  the first part out of range; \<open>None\<close> is an exception raised by \<^verbatim>\<open>int\<close> before that, which
  the method turns into \<^verbatim>\<open>False\<close>.
\<close>

fun all_octets :: "string list \<Rightarrow> bool option" where
  "all_octets [] = Some True"
| "all_octets (p # ps) =
     (case py_int p of
        None \<Rightarrow> None
      | Some n \<Rightarrow> if 0 \<le> n \<and> n \<le> 255 then all_octets ps else Some False)"

definition AMPStatusParser_is_valid_ip :: "string \<Rightarrow> bool" where
  "AMPStatusParser_is_valid_ip ip =
     (let parts = split_on CHR ''.'' ip in
      if length parts \<noteq> 4 then False
      else (case all_octets parts of None \<Rightarrow> False | Some b \<Rightarrow> b))"

section \<open>Parsed messages (core/adapters/base.py)\<close>

text \<open>
  \<^verbatim>\<open>MessageType\<close>, and \<^verbatim>\<open>ParsedMessage\<close> with its \<^verbatim>\<open>data\<close> dictionary.  The values stored in
  such a dictionary are integers, strings, booleans, dictionaries and lists.  The field
  \<^verbatim>\<open>timestamp\<close> is never set by the processors and is left out.
\<close>

datatype MessageType =
    CLIENT_CONNECT | CLIENT_DISCONNECT | GAME_START | GAME_END | WARMUP_START | WARMUP_END
  | PLAYER_KILL | CHAT_MESSAGE | STATUS_UPDATE | SERVER_SHUTDOWN | GAME_INITIALIZATION
  | UNKNOWN

datatype py_value =
    PyInt int | PyStr string | PyBool bool | PyDict "(string \<times> py_value) list"
  | PyList "py_value list"

record ParsedMessage =
  message_type :: MessageType
  raw_message :: string
  data :: "(string \<times> py_value) list"

section \<open>Status parsing state (core/adapters/status_parser.py)\<close>

datatype StatusParseState = IDLE | PARSING

record StatusParseContext =
  state :: StatusParseState
  lines :: "string list"
  seen_separator :: bool

definition init_StatusParseContext :: StatusParseContext where
  "init_StatusParseContext = \<lparr>state = IDLE, lines = [], seen_separator = False\<rparr>"

definition reset :: "StatusParseContext \<Rightarrow> StatusParseContext" where
  "reset ctx = ctx\<lparr>state := IDLE, lines := [], seen_separator := False\<rparr>"

definition is_parsing :: "StatusParseContext \<Rightarrow> bool" where
  "is_parsing ctx \<longleftrightarrow> state ctx = PARSING"

definition line_count :: "StatusParseContext \<Rightarrow> int" where
  "line_count ctx = int (length (lines ctx))"

definition start_parsing :: "StatusParseContext \<Rightarrow> StatusParseContext" where
  "start_parsing ctx = (reset ctx)\<lparr>state := PARSING\<rparr>"

definition add_line :: "string \<Rightarrow> StatusParseContext \<Rightarrow> StatusParseContext" where
  "add_line l ctx = ctx\<lparr>lines := lines ctx @ [l]\<rparr>"

definition mark_separator_seen :: "StatusParseContext \<Rightarrow> StatusParseContext" where
  "mark_separator_seen ctx = ctx\<lparr>seen_separator := True\<rparr>"

definition complete :: "StatusParseContext \<Rightarrow> string list \<times> StatusParseContext" where
  "complete ctx = (lines ctx, reset ctx)"

section \<open>OpenArena status rows (core/adapters/openarena/status_parser.py)\<close>

definition is_status_header :: "string \<Rightarrow> bool" where
  "is_status_header l \<longleftrightarrow> contains l ''num score ping name'' \<and> contains l ''address''"

definition is_separator :: "string \<Rightarrow> bool" where
  "is_separator l \<longleftrightarrow> startswith l ''---''"

text \<open>
  \<^verbatim>\<open>parse_client_line\<close>.  \<open>None\<close> is the method's \<^verbatim>\<open>None\<close>: fewer than six words, a word
  that \<^verbatim>\<open>int\<close> rejects, or an address that is not a valid IP.  The words are read by
  position; the list has at least six of them where \<open>parts ! i\<close> is used.
\<close>

text \<open>\<^verbatim>\<open>address.split(":")[0] if ":" in address else address\<close>\<close>

definition address_host :: "string \<Rightarrow> string" where
  "address_host address =
     (if CHR '':'' \<in> set address
      then (case split_on CHR '':'' address of [] \<Rightarrow> address | a # _ \<Rightarrow> a)
      else address)"

definition parse_client_line :: "string \<Rightarrow> (string \<times> py_value) list option" where
  "parse_client_line l =
     (let parts = split l in
      if length parts < 6 then None
      else
        (case (py_int (parts ! 0), py_int (parts ! 1), py_int (parts ! 2), py_int (parts ! 4)) of
           (Some client_id, Some score, Some ping, Some lastmsg) \<Rightarrow>
             (let name = parts ! 3;
                  address = parts ! 5;
                  qport_opt = (if length parts > 6 \<and> parts ! 6 \<noteq> ''0''
                               then py_int (parts ! 6) else Some 0)
              in case qport_opt of
                   None \<Rightarrow> None
                 | Some qport \<Rightarrow>
                     (case (if length parts > 7 then py_int (parts ! 7) else Some 0) of
                        None \<Rightarrow> None
                      | Some rate \<Rightarrow>
                          (let row = (\<lambda>ip_address client_type.
                                 [(''client_id'', PyInt client_id), (''score'', PyInt score),
                                  (''ping'', PyInt ping), (''name'', PyStr name),
                                  (''lastmsg'', PyInt lastmsg), (''ip'', PyStr ip_address),
                                  (''qport'', PyInt qport), (''rate'', PyInt rate),
                                  (''type'', PyStr client_type)])
                           in if address = ''bot'' then Some (row ''bot'' ''BOT'')
                              else
                                (let ip_address = address_host address
                                 in if \<not> OAStatusParser_is_valid_ip ip_address then None
                                    else Some (row ip_address ''HUMAN'')))))
         | _ \<Rightarrow> None))"

section \<open>Line-based message processor (core/adapters/openarena/message_processor.py)\<close>

text \<open>
  The six regular expressions, each as a function from the line to its groups.  In a
  pattern without flags, \<^verbatim>\<open>$\<close> matches at the end of the string and before a newline that
  ends the string (\<open>at_end\<close>); \<^verbatim>\<open>.\<close> matches every character but the newline; \<^verbatim>\<open>\s\<close> is
  \<open>isspace\<close>; \<^verbatim>\<open>[0-9]+\<close> is greedy and is followed by a character that is no digit, so it
  takes the whole run of digits.
\<close>

fun strip_prefix :: "string \<Rightarrow> string \<Rightarrow> string option" where
  "strip_prefix [] s = Some s"
| "strip_prefix (p # ps) [] = None"
| "strip_prefix (p # ps) (c # cs) = (if p = c then strip_prefix ps cs else None)"

definition at_end :: "string \<Rightarrow> bool" where
  "at_end r \<longleftrightarrow> r = [] \<or> r = [CHR 0x0A]"

definition ascii_digit :: "char \<Rightarrow> bool" where
  "ascii_digit c \<longleftrightarrow> isdigit c"

text \<open>\<^verbatim>\<open>^Client ([0-9]+) connecting with ([0-9]+) challenge ping$\<close>\<close>

definition match_client_connect :: "string \<Rightarrow> (string \<times> string) option" where
  "match_client_connect s =
     (case strip_prefix ''Client '' s of
        None \<Rightarrow> None
      | Some r1 \<Rightarrow>
          (let g1 = takeWhile ascii_digit r1 in
           if g1 = [] then None
           else (case strip_prefix '' connecting with '' (dropWhile ascii_digit r1) of
                   None \<Rightarrow> None
                 | Some r2 \<Rightarrow>
                     (let g2 = takeWhile ascii_digit r2 in
                      if g2 = [] then None
                      else (case strip_prefix '' challenge ping'' (dropWhile ascii_digit r2) of
                              None \<Rightarrow> None
                            | Some r3 \<Rightarrow> if at_end r3 then Some (g1, g2) else None)))))"

text \<open>\<^verbatim>\<open>^ClientDisconnect: ([0-9]+)$\<close>\<close>

definition match_client_disconnect :: "string \<Rightarrow> string option" where
  "match_client_disconnect s =
     (case strip_prefix ''ClientDisconnect: '' s of
        None \<Rightarrow> None
      | Some r1 \<Rightarrow>
          (let g1 = takeWhile ascii_digit r1 in
           if g1 = [] then None
           else if at_end (dropWhile ascii_digit r1) then Some g1 else None))"

text \<open>\<^verbatim>\<open>^------- Game Initialization -------$\<close>\<close>

definition match_game_initialization :: "string \<Rightarrow> bool" where
  "match_game_initialization s =
     (case strip_prefix ''------- Game Initialization -------'' s of
        None \<Rightarrow> False
      | Some r \<Rightarrow> at_end r)"

text \<open>\<^verbatim>\<open>^Exit: (Fraglimit|Timelimit) hit\.$\<close>\<close>

definition match_game_end :: "string \<Rightarrow> string option" where
  "match_game_end s =
     (case strip_prefix ''Exit: Fraglimit hit.'' s of
        Some r \<Rightarrow> if at_end r then Some ''Fraglimit'' else None
      | None \<Rightarrow>
          (case strip_prefix ''Exit: Timelimit hit.'' s of
             Some r \<Rightarrow> if at_end r then Some ''Timelimit'' else None
           | None \<Rightarrow> None))"

text \<open>
  \<^verbatim>\<open>\s*(.*)$\<close> after a fixed prefix: the whitespace is skipped, and what follows must run to
  the end of the string without a newline, or to a newline that ends the string.
\<close>

definition rest_of_line :: "string \<Rightarrow> string option" where
  "rest_of_line r =
     (let g = dropWhile isspace r in
      if CHR 0x0A \<notin> set g then Some g
      else if g \<noteq> [] \<and> last g = CHR 0x0A \<and> CHR 0x0A \<notin> set (butlast g) then Some (butlast g)
      else None)"

text \<open>\<^verbatim>\<open>^Warmup:\s*(.*)$\<close> and \<^verbatim>\<open>^ShutdownGame:\s*(.*)$\<close>\<close>

definition match_warmup_start :: "string \<Rightarrow> string option" where
  "match_warmup_start s =
     (case strip_prefix ''Warmup:'' s of None \<Rightarrow> None | Some r \<Rightarrow> rest_of_line r)"

definition match_server_shutdown :: "string \<Rightarrow> string option" where
  "match_server_shutdown s =
     (case strip_prefix ''ShutdownGame:'' s of None \<Rightarrow> None | Some r \<Rightarrow> rest_of_line r)"

text \<open>\<^verbatim>\<open>re.match(r"^\s*\d+\s+", raw_message)\<close>\<close>

definition match_client_row :: "string \<Rightarrow> bool" where
  "match_client_row s =
     (let r = dropWhile isspace s in
      takeWhile isdigit r \<noteq> [] \<and>
      (case dropWhile isdigit r of [] \<Rightarrow> False | c # _ \<Rightarrow> isspace c))"

text \<open>\<^verbatim>\<open>str.lower()\<close> on the two words the pattern can capture.\<close>

definition lower_reason :: "string \<Rightarrow> string" where
  "lower_reason g = (if g = ''Fraglimit'' then ''fraglimit'' else ''timelimit'')"

text \<open>
  The state of \<^verbatim>\<open>OAMessageProcessor\<close>.  \<open>status_parser\<close> is the context held by the
  \<^verbatim>\<open>OAStatusParser\<close>.  The callback \<^verbatim>\<open>send_command\<close> may be \<^verbatim>\<open>None\<close> (\<open>callback_set\<close>); the
  commands handed to it are appended to \<open>sent_commands\<close>.  The handlers for connecting
  and disconnecting clients apply \<^verbatim>\<open>int\<close> to a group of the digits \<^verbatim>\<open>0\<close> to \<^verbatim>\<open>9\<close>, where it is
  the group's decimal value as long as the group has at most 4300 digits; on a longer
  group \<^verbatim>\<open>int\<close> raises before the handler has changed anything, a case that the two
  handlers below leave out.
\<close>

record OAMessageProcessor =
  status_parser :: StatusParseContext
  status_client_count :: int
  recent_fraglimit_hit :: bool
  recent_game_initialization :: bool
  callback_set :: bool
  sent_commands :: "string list"

definition init_OAMessageProcessor :: "bool \<Rightarrow> OAMessageProcessor" where
  "init_OAMessageProcessor has_callback =
     \<lparr>status_parser = init_StatusParseContext, status_client_count = 0,
      recent_fraglimit_hit = False, recent_game_initialization = False,
      callback_set = has_callback, sent_commands = []\<rparr>"

definition handle_client_connecting ::
  "string \<Rightarrow> string \<times> string \<Rightarrow> OAMessageProcessor \<Rightarrow> ParsedMessage \<times> OAMessageProcessor" where
  "handle_client_connecting raw groups p =
     (\<lparr>message_type = CLIENT_CONNECT, raw_message = raw,
       data = [(''client_id'', PyInt (decimal_value (fst groups))),
               (''challenge_ping'', PyInt (decimal_value (snd groups))),
               (''needs_status_parse'', PyBool True)]\<rparr>,
      if callback_set p then p\<lparr>sent_commands := sent_commands p @ [''status'']\<rparr> else p)"

definition handle_client_disconnect ::
  "string \<Rightarrow> string \<Rightarrow> OAMessageProcessor \<Rightarrow> ParsedMessage \<times> OAMessageProcessor" where
  "handle_client_disconnect raw g p =
     (\<lparr>message_type = CLIENT_DISCONNECT, raw_message = raw,
       data = [(''client_id'', PyInt (decimal_value g))]\<rparr>, p)"

definition handle_game_initialization ::
  "string \<Rightarrow> OAMessageProcessor \<Rightarrow> ParsedMessage \<times> OAMessageProcessor" where
  "handle_game_initialization raw p =
     (\<lparr>message_type = GAME_INITIALIZATION, raw_message = raw,
       data = [(''event'', PyStr ''game_initialization''),
               (''awaiting_type_determination'', PyBool True)]\<rparr>,
      p\<lparr>recent_game_initialization := True\<rparr>)"

definition handle_match_end ::
  "string \<Rightarrow> string \<Rightarrow> OAMessageProcessor \<Rightarrow> ParsedMessage \<times> OAMessageProcessor" where
  "handle_match_end raw g p =
     (\<lparr>message_type = GAME_END, raw_message = raw,
       data = [(''event'', PyStr ''match_ended''), (''reason'', PyStr (lower_reason g))]\<rparr>,
      p\<lparr>recent_fraglimit_hit := True\<rparr>)"

definition handle_warmup_state ::
  "string \<Rightarrow> string \<Rightarrow> OAMessageProcessor \<Rightarrow> ParsedMessage \<times> OAMessageProcessor" where
  "handle_warmup_state raw g p =
     (let warmup_info = (if g \<noteq> [] then strip g else []);
          initialization_type =
            (if recent_game_initialization p then ''warmup_initialization''
             else ''warmup_only'')
      in (\<lparr>message_type = WARMUP_START, raw_message = raw,
           data = [(''event'', PyStr ''warmup_started''), (''warmup_info'', PyStr warmup_info),
                   (''is_active'', PyBool True),
                   (''initialization_type'', PyStr initialization_type),
                   (''follows_game_initialization'',
                    PyBool (initialization_type = ''warmup_initialization''))]\<rparr>,
          p\<lparr>recent_fraglimit_hit := False, recent_game_initialization := False\<rparr>))"

definition handle_shutdown_game ::
  "string \<Rightarrow> string \<Rightarrow> OAMessageProcessor \<Rightarrow> ParsedMessage \<times> OAMessageProcessor" where
  "handle_shutdown_game raw g p =
     (let shutdown_info = (if g \<noteq> [] then strip g else []);
          is_match_end = recent_fraglimit_hit p;
          event_type = (if recent_fraglimit_hit p then ''match_end'' else ''warmup_end'');
          p1 = (if recent_fraglimit_hit p then p\<lparr>recent_fraglimit_hit := False\<rparr> else p)
      in (\<lparr>message_type = SERVER_SHUTDOWN, raw_message = raw,
           data = [(''event'', PyStr event_type), (''shutdown_info'', PyStr shutdown_info),
                   (''is_match_end'', PyBool is_match_end)]\<rparr>,
          p1))"

text \<open>
  \<^verbatim>\<open>_extract_client_data_from_status\<close>: the loop skips the lines numbered 1 to 3 and keeps,
  of the rows that parse, the first one for each client id.
\<close>

definition same_client_id :: "(string \<times> py_value) list \<Rightarrow> (string \<times> py_value) list \<Rightarrow> bool" where
  "same_client_id c d \<longleftrightarrow> map_of c ''client_id'' = map_of d ''client_id''"

fun collect_clients ::
  "string list \<Rightarrow> (string \<times> py_value) list list \<Rightarrow> (string \<times> py_value) list list" where
  "collect_clients [] client_data_list = client_data_list"
| "collect_clients (l # ls) client_data_list =
     (case parse_client_line l of
        None \<Rightarrow> collect_clients ls client_data_list
      | Some client_data \<Rightarrow>
          if list_ex (\<lambda>c. same_client_id c client_data) client_data_list
          then collect_clients ls client_data_list
          else collect_clients ls (client_data_list @ [client_data]))"

definition extract_client_data_from_status ::
  "OAMessageProcessor \<Rightarrow> (string \<times> py_value) list list" where
  "extract_client_data_from_status p = collect_clients (drop 3 (lines (status_parser p))) []"

definition status_complete_message :: "(string \<times> py_value) list list \<Rightarrow> ParsedMessage" where
  "status_complete_message client_data =
     \<lparr>message_type = STATUS_UPDATE, raw_message = ''STATUS_COMPLETE'',
      data = [(''client_data'', PyList (map PyDict client_data)),
              (''status_complete'', PyBool True)]\<rparr>"

definition complete_status_parsing ::
  "OAMessageProcessor \<Rightarrow> ParsedMessage \<times> OAMessageProcessor" where
  "complete_status_parsing p =
     (let client_data = extract_client_data_from_status p
      in (status_complete_message client_data,
          p\<lparr>status_parser := snd (complete (status_parser p))\<rparr>))"

definition complete_status_parsing_and_reprocess ::
  "string \<Rightarrow> OAMessageProcessor \<Rightarrow> ParsedMessage \<times> OAMessageProcessor" where
  "complete_status_parsing_and_reprocess raw p =
     (let client_data = extract_client_data_from_status p;
          p1 = p\<lparr>status_parser := snd (complete (status_parser p))\<rparr>
      in if client_data \<noteq> [] then (status_complete_message client_data, p1)
         else (\<lparr>message_type = UNKNOWN, raw_message = raw, data = []\<rparr>, p1))"

definition handle_status_line ::
  "string \<Rightarrow> OAMessageProcessor \<Rightarrow> ParsedMessage \<times> OAMessageProcessor" where
  "handle_status_line raw p =
     (let p1 = p\<lparr>status_parser := add_line raw (status_parser p)\<rparr>;
          n = line_count (status_parser p1);
          plain = \<lparr>message_type = STATUS_UPDATE, raw_message = raw, data = []\<rparr>
      in if is_separator raw
         then (plain, p1\<lparr>status_parser := mark_separator_seen (status_parser p1)\<rparr>)
         else if startswith raw ''map:'' then (plain, p1)
         else if is_status_header raw then (plain, p1)
         else if seen_separator (status_parser p1)
         then (if match_client_row raw
               then (case parse_client_line raw of
                       Some client_data \<Rightarrow>
                         (\<lparr>message_type = STATUS_UPDATE, raw_message = raw,
                           data = [(''client_data'', PyDict client_data),
                                   (''line_number'', PyInt n)]\<rparr>,
                          p1\<lparr>status_client_count := status_client_count p1 + 1\<rparr>)
                     | None \<Rightarrow> (plain, p1))
               else complete_status_parsing_and_reprocess raw p1)
         else (plain, p1))"

definition process_message ::
  "string \<Rightarrow> OAMessageProcessor \<Rightarrow> ParsedMessage \<times> OAMessageProcessor" where
  "process_message raw_line p =
     (let raw = strip raw_line in
      if raw = []
      then (if is_parsing (status_parser p) then complete_status_parsing p
            else (\<lparr>message_type = UNKNOWN, raw_message = raw, data = []\<rparr>, p))
      else
        (case match_client_connect raw of
           Some groups \<Rightarrow> handle_client_connecting raw groups p
         | None \<Rightarrow>
        (case match_client_disconnect raw of
           Some g \<Rightarrow> handle_client_disconnect raw g p
         | None \<Rightarrow>
        (if match_game_initialization raw then handle_game_initialization raw p
         else
        (case match_game_end raw of
           Some g \<Rightarrow> handle_match_end raw g p
         | None \<Rightarrow>
        (case match_warmup_start raw of
           Some g \<Rightarrow> handle_warmup_state raw g p
         | None \<Rightarrow>
        (case match_server_shutdown raw of
           Some g \<Rightarrow> handle_shutdown_game raw g p
         | None \<Rightarrow>
        (if is_status_header raw
         then handle_status_line raw
                (p\<lparr>status_parser := start_parsing (status_parser p),
                   status_client_count := 0\<rparr>)
         else if is_parsing (status_parser p) then handle_status_line raw p
         else (\<lparr>message_type = UNKNOWN, raw_message = raw, data = []\<rparr>, p)))))))))"

text \<open>
  The processor run over a list of lines: the messages returned, in order, and the final
  state.
\<close>

fun process_messages ::
  "string list \<Rightarrow> OAMessageProcessor \<Rightarrow> ParsedMessage list \<times> OAMessageProcessor" where
  "process_messages [] p = ([], p)"
| "process_messages (l # ls) p =
     (case process_message l p of
        (m, p1) \<Rightarrow> (case process_messages ls p1 of (ms, p2) \<Rightarrow> (m # ms, p2)))"

section \<open>Vocabulary for the properties of the line-based processor\<close>

text \<open>
  \<open>branch_of\<close> names the branch of \<open>process_message\<close> that a line takes; the tests are
  those of \<open>process_message\<close>, in its order.  \<open>status_branch\<close> is the last branch, the one
  for status output.
\<close>

datatype branch = Blank | Connect | Disconnect | Init | End | Warmup | Shutdown | Status

definition branch_of :: "string \<Rightarrow> branch" where
  "branch_of l =
     (let raw = strip l in
      if raw = [] then Blank
      else if match_client_connect raw \<noteq> None then Connect
      else if match_client_disconnect raw \<noteq> None then Disconnect
      else if match_game_initialization raw then Init
      else if match_game_end raw \<noteq> None then End
      else if match_warmup_start raw \<noteq> None then Warmup
      else if match_server_shutdown raw \<noteq> None then Shutdown
      else Status)"

definition status_branch :: "string \<Rightarrow> OAMessageProcessor \<Rightarrow> ParsedMessage \<times> OAMessageProcessor" where
  "status_branch raw p =
     (if is_status_header raw
      then handle_status_line raw
             (p\<lparr>status_parser := start_parsing (status_parser p), status_client_count := 0\<rparr>)
      else if is_parsing (status_parser p) then handle_status_line raw p
      else (\<lparr>message_type = UNKNOWN, raw_message = raw, data = []\<rparr>, p))"

text \<open>
  The type a line gets from an idle processor.  For game-end, warmup-start and shutdown
  lines it is the type the line gets in every state (lemma \<open>line_type_branch\<close> with
  \<open>process_message_type\<close>).
\<close>

definition line_type :: "string \<Rightarrow> MessageType" where
  "line_type l = message_type (fst (process_message l (init_OAMessageProcessor False)))"

text \<open>
  The words of the specification: the lines processed since the last warmup-start or
  shutdown line (newest first), and whether a game-end line is among them.
\<close>

definition since_last_reset :: "string list \<Rightarrow> string list" where
  "since_last_reset history =
     takeWhile (\<lambda>l. line_type l \<noteq> WARMUP_START \<and> line_type l \<noteq> SERVER_SHUTDOWN) (rev history)"

definition game_end_since_reset :: "string list \<Rightarrow> bool" where
  "game_end_since_reset history = list_ex (\<lambda>l. line_type l = GAME_END) (since_last_reset history)"

text \<open>
  The client ids of the rows of a block that parse.  The output of the server's
  \<^verbatim>\<open>status\<close> command as the status parser's documentation gives it (map line, header,
  separator, client rows), with two clients and with one, and the processor after each.
\<close>

definition parsed_ids :: "string list \<Rightarrow> py_value option set" where
  "parsed_ids rows =
     set (map (\<lambda>c. map_of c ''client_id'') (List.map_filter parse_client_line rows))"

definition status_block :: "string list" where
  "status_block =
     [''map: oasago2'',
      ''num score ping name            lastmsg address               qport rate'',
      ''--- ----- ---- --------------- ------- --------------------- ----- -----'',
      ''  0    5  100 Player1              0 192.168.1.100:27961   12345 25000'',
      ''  1    3   50 Player2              0 10.0.0.7:27960         4242 25000'']"

definition after_status_block :: OAMessageProcessor where
  "after_status_block = snd (process_messages status_block (init_OAMessageProcessor False))"

definition single_client_block :: "string list" where
  "single_client_block =
     [''map: oasago2'',
      ''num score ping name            lastmsg address               qport rate'',
      ''--- ----- ---- --------------- ------- --------------------- ----- -----'',
      ''  0    5  100 Player1              0 192.168.1.100:27961   12345 25000'']"

definition after_single_client_block :: OAMessageProcessor where
  "after_single_client_block =
     snd (process_messages single_client_block (init_OAMessageProcessor False))"


section \<open>Poll-based status rows (core/adapters/amp/status_parser.py)\<close>

definition PLAYER_SECTION_START :: string where
  "PLAYER_SECTION_START = ''---------players--------''"

definition PLAYER_SECTION_END :: string where
  "PLAYER_SECTION_END = ''#end''"

definition AMPStatusParser_is_status_header :: "string \<Rightarrow> bool" where
  "AMPStatusParser_is_status_header l \<longleftrightarrow> contains l PLAYER_SECTION_START"

definition is_section_end :: "string \<Rightarrow> bool" where
  "is_section_end l \<longleftrightarrow> strip l = PLAYER_SECTION_END"

definition is_column_header :: "string \<Rightarrow> bool" where
  "is_column_header l \<longleftrightarrow>
     contains l ''id'' \<and> contains l ''ping'' \<and> contains l ''adr'' \<and> contains l ''name''"

text \<open>
  \<^verbatim>\<open>IP_PORT_PATTERN = (\d{1,3}\.\d{1,3}\.\d{1,3}\.\d{1,3}:\d+)\<close>.  Every group of digits
  is followed by a character that is no digit, so a group matches exactly when the run
  of digits at that place has one to three digits (\<open>take_octet\<close>); the port takes the
  whole run of digits.  \<open>match_ip_port\<close> matches at the start of its argument and returns
  the match and what follows it; \<open>search_ip_port\<close> is \<^verbatim>\<open>search\<close>: the leftmost match,
  with the text before it, the match, and the text after it.
\<close>

definition take_octet :: "string \<Rightarrow> (string \<times> string) option" where
  "take_octet s =
     (let ds = takeWhile isdigit s in
      if ds \<noteq> [] \<and> length ds \<le> 3 then Some (ds, dropWhile isdigit s) else None)"

definition expect :: "char \<Rightarrow> string \<Rightarrow> string option" where
  "expect c s = (case s of [] \<Rightarrow> None | x # xs \<Rightarrow> if x = c then Some xs else None)"

definition match_ip_port :: "string \<Rightarrow> (string \<times> string) option" where
  "match_ip_port s =
     Option.bind (take_octet s) (\<lambda>(a, r1).
     Option.bind (expect CHR ''.'' r1) (\<lambda>r2.
     Option.bind (take_octet r2) (\<lambda>(b, r3).
     Option.bind (expect CHR ''.'' r3) (\<lambda>r4.
     Option.bind (take_octet r4) (\<lambda>(c, r5).
     Option.bind (expect CHR ''.'' r5) (\<lambda>r6.
     Option.bind (take_octet r6) (\<lambda>(d, r7).
     Option.bind (expect CHR '':'' r7) (\<lambda>r8.
       (let port = takeWhile isdigit r8 in
        if port = [] then None
        else Some (a @ ''.'' @ b @ ''.'' @ c @ ''.'' @ d @ '':'' @ port,
                   dropWhile isdigit r8))))))))))"

fun search_ip_port :: "string \<Rightarrow> (string \<times> string \<times> string) option" where
  "search_ip_port [] = None"
| "search_ip_port (c # cs) =
     (case match_ip_port (c # cs) of
        Some (m, rest) \<Rightarrow> Some ([], m, rest)
      | None \<Rightarrow> map_option (\<lambda>(before_text, m, rest). (c # before_text, m, rest)) (search_ip_port cs))"

text \<open>
  \<^verbatim>\<open>str.isdigit()\<close>: among the code points below 256 it holds for the decimal digits and
  for the superscripts 1, 2 and 3, which \<^verbatim>\<open>int\<close> rejects.  \<^verbatim>\<open>s.strip(chars)\<close> removes the
  given characters from both ends.
\<close>

definition str_isdigit :: "string \<Rightarrow> bool" where
  "str_isdigit s \<longleftrightarrow>
     s \<noteq> [] \<and> list_all (\<lambda>c. isdigit c \<or> c \<in> set [CHR 0xB2, CHR 0xB3, CHR 0xB9]) s"

definition strip_chars :: "string \<Rightarrow> string \<Rightarrow> string" where
  "strip_chars chars s =
     rev (dropWhile (\<lambda>c. c \<in> set chars) (rev (dropWhile (\<lambda>c. c \<in> set chars) s)))"

text \<open>
  \<^verbatim>\<open>parse_client_line\<close> of the poll-based parser.  \<open>None\<close> is the method's \<^verbatim>\<open>None\<close>, also
  where an exception is caught: a client id or a rate that \<^verbatim>\<open>int\<close> rejects.  A ping or a
  loss that \<^verbatim>\<open>int\<close> rejects becomes 0.
\<close>

definition AMPStatusParser_parse_client_line :: "string \<Rightarrow> (string \<times> py_value) list option" where
  "AMPStatusParser_parse_client_line l =
     (if contains l '' BOT '' then None
      else
        (case search_ip_port l of
           None \<Rightarrow> None
         | Some (before_text, address, after_text) \<Rightarrow>
             (let ip = (case split_on CHR '':'' address of [] \<Rightarrow> [] | a # _ \<Rightarrow> a) in
              if \<not> AMPStatusParser_is_valid_ip ip then None
              else
                (let before_ip = split before_text;
                     after_ip = strip after_text
                 in if length before_ip < 5 then None
                    else
                      (case py_int (before_ip ! 0) of
                         None \<Rightarrow> None
                       | Some client_id \<Rightarrow>
                           (let time_connected = before_ip ! 1;
                                ping = (case py_int (before_ip ! 2) of Some n \<Rightarrow> n | None \<Rightarrow> 0);
                                loss = (case py_int (before_ip ! 3) of Some n \<Rightarrow> n | None \<Rightarrow> 0);
                                client_state = before_ip ! 4;
                                rate_opt =
                                  (if length before_ip > 5 \<and> str_isdigit (before_ip ! 5)
                                   then py_int (before_ip ! 5) else Some 0);
                                name = strip_chars [CHR 0x27, CHR 0x22, CHR 0x20] after_ip
                            in case rate_opt of
                                 None \<Rightarrow> None
                               | Some rate \<Rightarrow>
                                   Some [(''client_id'', PyInt client_id),
                                         (''time'', PyStr time_connected),
                                         (''ping'', PyInt ping), (''loss'', PyInt loss),
                                         (''state'', PyStr client_state),
                                         (''rate'', PyInt rate), (''ip'', PyStr ip),
                                         (''address'', PyStr address), (''name'', PyStr name),
                                         (''type'', PyStr ''HUMAN'')]))))))"

section \<open>Poll-based message processor (core/adapters/amp/message_processor.py)\<close>

record AMPMessageProcessor =
  in_player_section :: bool
  collected_clients :: "(string \<times> py_value) list list"

definition init_AMPMessageProcessor :: AMPMessageProcessor where
  "init_AMPMessageProcessor = \<lparr>in_player_section = False, collected_clients = []\<rparr>"

definition AMPMessageProcessor_process_message ::
  "string \<Rightarrow> AMPMessageProcessor \<Rightarrow> ParsedMessage \<times> AMPMessageProcessor" where
  "AMPMessageProcessor_process_message raw_line p =
     (let raw = strip raw_line;
          plain = \<lparr>message_type = STATUS_UPDATE, raw_message = raw, data = []\<rparr>
      in if raw = [] then (\<lparr>message_type = UNKNOWN, raw_message = raw, data = []\<rparr>, p)
         else if AMPStatusParser_is_status_header raw
         then (plain, p\<lparr>in_player_section := True, collected_clients := []\<rparr>)
         else if in_player_section p \<and> is_section_end raw
         then (\<lparr>message_type = STATUS_UPDATE, raw_message = raw,
                data = [(''clients'', PyList (map PyDict (collected_clients p))),
                        (''status_complete'', PyBool True)]\<rparr>,
               p\<lparr>in_player_section := False, collected_clients := []\<rparr>)
         else if in_player_section p
         then (if is_column_header raw then (plain, p)
               else (case AMPStatusParser_parse_client_line raw of
                       Some client \<Rightarrow>
                         (\<lparr>message_type = STATUS_UPDATE, raw_message = raw,
                           data = [(''client_data'', PyDict client)]\<rparr>,
                          p\<lparr>collected_clients := collected_clients p @ [client]\<rparr>)
                     | None \<Rightarrow> (plain, p)))
         else (\<lparr>message_type = UNKNOWN, raw_message = raw, data = []\<rparr>, p))"

fun AMPMessageProcessor_process_messages ::
  "string list \<Rightarrow> AMPMessageProcessor \<Rightarrow> ParsedMessage list \<times> AMPMessageProcessor" where
  "AMPMessageProcessor_process_messages [] p = ([], p)"
| "AMPMessageProcessor_process_messages (l # ls) p =
     (case AMPMessageProcessor_process_message l p of
        (m, p1) \<Rightarrow>
          (case AMPMessageProcessor_process_messages ls p1 of (ms, p2) \<Rightarrow> (m # ms, p2)))"

text \<open>
  The rows of a block that end up in the list: those that are not the column header and
  that parse.  The block of the status parser's documentation, without its end marker,
  and the processor after it.
\<close>

definition collected_rows :: "string list \<Rightarrow> (string \<times> py_value) list list" where
  "collected_rows rows =
     List.map_filter AMPStatusParser_parse_client_line
       (filter (\<lambda>r. \<not> is_column_header r) (map strip rows))"

definition players_block :: "string list" where
  "players_block =
     [''---------players--------'',
      ''  id     time ping loss      state   rate adr name'',
      ''  3    00:05   12    0   spawning  80000 127.190.6.117:52271 '' @ [CHR 0x27] @
        ''quangminh2479'' @ [CHR 0x27],
      ''  65535 [NoChan]    0    0   reserved      0127.190.6.117:49721 '' @
        [CHR 0x27, CHR 0x27]]"

definition after_players_block :: AMPMessageProcessor where
  "after_players_block =
     snd (AMPMessageProcessor_process_messages players_block init_AMPMessageProcessor)"

section \<open>Properties of the round state machine\<close>

lemma apply_op_round_count:
  "round_count (apply_op op g) = round_count g \<or>
   (current_state g = RUNNING \<and> round_count (apply_op op g) = round_count g + 1)"
  by (cases op)
     (auto simp: handle_warmup_detected_def handle_game_initialization_detected_def
        handle_match_start_detected_def handle_match_shutdown_detected_def
        transition_to_def reset_to_waiting_def Let_def split: GameState.splits)

lemma run_ops_round_count_mono: "round_count g \<le> round_count (run_ops ops g)"
proof (induction ops arbitrary: g)
  case Nil
  show ?case by simp
next
  case (Cons op ops)
  have "round_count g \<le> round_count (apply_op op g)"
    using apply_op_round_count [of op g] by auto
  also have "\<dots> \<le> round_count (run_ops ops (apply_op op g))"
    by (rule Cons.IH)
  finally show ?case by simp
qed

text \<open>
  C2.  In state RUNNING a match-shutdown event adds one to the round counter and reports
  \<open>experiment_finished\<close> exactly when the new counter has reached \<open>max_rounds\<close>;
  otherwise it reports \<open>round_completed\<close> with the single action \<open>rotate_latency\<close>.
  Exactly one of the two flags is set.  In every other state both flags are false and
  the manager, in particular its round counter, is unchanged.
\<close>

theorem match_shutdown_in_running_and_elsewhere:
  "(current_state g = RUNNING \<longrightarrow>
      (case handle_match_shutdown_detected g of (r, g') \<Rightarrow>
         round_count g' = round_count g + 1 \<and>
         (experiment_finished r \<longleftrightarrow> round_count g' \<ge> max_rounds g') \<and>
         (\<not> experiment_finished r \<longrightarrow>
            round_completed r \<and> actions r = [''rotate_latency'']) \<and>
         (experiment_finished r \<longleftrightarrow> \<not> round_completed r))) \<and>
   (current_state g \<noteq> RUNNING \<longrightarrow>
      (case handle_match_shutdown_detected g of (r, g') \<Rightarrow>
         \<not> experiment_finished r \<and> \<not> round_completed r \<and>
         round_count g' = round_count g \<and> g' = g))"
  by (simp add: handle_match_shutdown_detected_def Let_def)

theorem match_shutdown_in_running_and_elsewhere_witness:
  "(case handle_match_shutdown_detected
           \<lparr>current_state = RUNNING, round_count = 3, warmup_round_count = 0,
            max_rounds = 4\<rparr> of
      (r, g') \<Rightarrow> round_count g' = 4 \<and> experiment_finished r \<and> \<not> round_completed r) \<and>
   (case handle_match_shutdown_detected
           \<lparr>current_state = RUNNING, round_count = 2, warmup_round_count = 0,
            max_rounds = 4\<rparr> of
      (r, g') \<Rightarrow> round_count g' = 3 \<and> \<not> experiment_finished r \<and> round_completed r \<and>
         actions r = [''rotate_latency'']) \<and>
   (case handle_match_shutdown_detected
           \<lparr>current_state = WARMUP, round_count = 3, warmup_round_count = 0,
            max_rounds = 4\<rparr> of
      (r, g') \<Rightarrow> round_count g' = 3 \<and> \<not> experiment_finished r \<and> \<not> round_completed r)"
  using
    match_shutdown_in_running_and_elsewhere
      [of "\<lparr>current_state = RUNNING, round_count = 3, warmup_round_count = 0,
            max_rounds = 4\<rparr>"]
    match_shutdown_in_running_and_elsewhere
      [of "\<lparr>current_state = RUNNING, round_count = 2, warmup_round_count = 0,
            max_rounds = 4\<rparr>"]
    match_shutdown_in_running_and_elsewhere
      [of "\<lparr>current_state = WARMUP, round_count = 3, warmup_round_count = 0,
            max_rounds = 4\<rparr>"]
  by (simp add: handle_match_shutdown_detected_def Let_def)

text \<open>
  C6.  The round counter is 1 after construction.  No operation of the machine (warmup
  detected, game initialization, match start, match shutdown, transition, reset) lowers
  it, an operation changes it only when the machine is in state RUNNING before the
  operation, and over any sequence of operations it never falls below its earlier value.
\<close>

theorem round_count_starts_at_one_and_only_grows_in_running:
  "round_count (init_GameStateManager latencies repeats) = 1 \<and>
   round_count g \<le> round_count (apply_op op g) \<and>
   (round_count (apply_op op g) \<noteq> round_count g \<longrightarrow> current_state g = RUNNING) \<and>
   round_count g \<le> round_count (run_ops ops g)"
  using apply_op_round_count [of op g] run_ops_round_count_mono [of g ops]
  by (auto simp: init_GameStateManager_def)

theorem round_count_starts_at_one_and_only_grows_in_running_witness:
  "round_count (apply_op MatchShutdownDetected
      \<lparr>current_state = RUNNING, round_count = 1, warmup_round_count = 0, max_rounds = 6\<rparr>)
     \<noteq> round_count
      \<lparr>current_state = RUNNING, round_count = 1, warmup_round_count = 0, max_rounds = 6\<rparr> \<and>
   current_state
      \<lparr>current_state = RUNNING, round_count = 1, warmup_round_count = 0, max_rounds = 6\<rparr>
     = RUNNING"
  using round_count_starts_at_one_and_only_grows_in_running
    [of "[10, 50]" 3
        "\<lparr>current_state = RUNNING, round_count = 1, warmup_round_count = 0, max_rounds = 6\<rparr>"
        MatchShutdownDetected "[]"]
  by (simp add: handle_match_shutdown_detected_def Let_def)

section \<open>Properties of the shutdown strategies and of client registration\<close>


lemma send_commands_game_state_manager [simp]:
  "game_state_manager (send_commands cmds a) = game_state_manager a"
  unfolding send_commands_def
  by (induction cmds arbitrary: a) (simp_all add: send_command_sync_def)

lemma send_commands_insufficient_humans [simp]:
  "insufficient_humans (send_commands cmds a) = insufficient_humans a"
  unfolding send_commands_def
  by (induction cmds arbitrary: a) (simp_all add: send_command_sync_def)

lemma run_async_game_state_manager [simp]:
  "game_state_manager (run_async c a) = game_state_manager a"
  by (simp add: run_async_def)

lemma send_command_sync_game_state_manager [simp]:
  "game_state_manager (send_command_sync c a) = game_state_manager a"
  by (simp add: send_command_sync_def)

lemma process_match_shutdown_actions_game_state_manager [simp]:
  "game_state_manager (process_match_shutdown_actions acts a) = game_state_manager a"
  by (simp add: process_match_shutdown_actions_def split: prod.splits)

text \<open>
  C3 (as the code has it).  When the match-end strategy returns, the round state machine
  is in state WAITING, for every adapter state.  When the warmup-end strategy returns and
  the player threshold was met, the machine is in state WAITING as well.  When the
  threshold was not met, the warmup-end strategy only re-arms the warmup phase: it sends
  the two commands \<^verbatim>\<open>set g_doWarmup 1\<close> and \<^verbatim>\<open>set g_warmup <time>\<close>, in this order, and
  changes nothing else, so it returns with the round state machine exactly as it found
  it.
\<close>

theorem shutdown_strategies_final_state:
  "current_state (game_state_manager (MatchShutdownStrategy_handle a)) = WAITING \<and>
   (\<not> insufficient_humans a \<longrightarrow>
      current_state (game_state_manager (WarmupShutdownStrategy_handle warmup_time tc_ok a))
        = WAITING) \<and>
   (insufficient_humans a \<longrightarrow>
      game_state_manager (WarmupShutdownStrategy_handle warmup_time tc_ok a)
        = game_state_manager a \<and>
      WarmupShutdownStrategy_handle warmup_time tc_ok a =
        a\<lparr>effects := effects a @
             [Command ''set g_doWarmup 1'', Command (''set g_warmup '' @ str_int warmup_time)]\<rparr>)"
  by (simp add: MatchShutdownStrategy_handle_def WarmupShutdownStrategy_handle_def
        set_next_round_with_warmup_phase_def send_command_sync_def reset_to_waiting_def
        transition_to_def Let_def
      split: prod.splits)


text \<open>
  C3 as stated fails: with the player threshold unmet and the machine in WARMUP, the
  warmup-end strategy returns with the machine still in WARMUP.
\<close>

theorem warmup_strategy_threshold_unmet_counterexample:
  "current_state (game_state_manager (WarmupShutdownStrategy_handle 5 True waiting_for_players))
     \<noteq> WAITING"
  by (simp add: waiting_for_players_def WarmupShutdownStrategy_handle_def
        set_next_round_with_warmup_phase_def send_command_sync_def)

lemma str_int_five: "str_int 5 = ''5''"
  by code_simp

theorem shutdown_strategies_final_state_witness:
  "insufficient_humans waiting_for_players \<and>
   game_state_manager (WarmupShutdownStrategy_handle 5 True waiting_for_players)
     = game_state_manager waiting_for_players \<and>
   effects (WarmupShutdownStrategy_handle 5 True waiting_for_players) =
     [Command ''set g_doWarmup 1'', Command ''set g_warmup 5''] \<and>
   \<not> insufficient_humans (waiting_for_players\<lparr>insufficient_humans := False\<rparr>) \<and>
   current_state (game_state_manager
      (WarmupShutdownStrategy_handle 5 True
         (waiting_for_players\<lparr>insufficient_humans := False\<rparr>))) = WAITING"
proof -
  have h: "insufficient_humans waiting_for_players \<and> effects waiting_for_players = []"
    by (simp add: waiting_for_players_def)
  have n: "\<not> insufficient_humans (waiting_for_players\<lparr>insufficient_humans := False\<rparr>)"
    by simp
  show ?thesis
    using h n str_int_five
      shutdown_strategies_final_state
        [where a = waiting_for_players and warmup_time = 5 and tc_ok = True]
      shutdown_strategies_final_state
        [where a = "waiting_for_players\<lparr>insufficient_humans := False\<rparr>"
           and warmup_time = 5 and tc_ok = True]
    by simp
qed

text \<open>
  C10.  When \<open>add_client\<close> is called with a name from \<open>BOT_NAMES\<close>, the client is
  registered with type BOT whatever \<open>is_bot\<close> and the address are, and the latency map,
  the client-to-address map and the OBS status map are left as they were.
\<close>

theorem add_client_bot_name:
  "n \<in> set BOT_NAMES \<Longrightarrow>
     map_of (client_type_map (add_client client_id ip latency (Some n) is_bot nm)) client_id
       = Some ''BOT'' \<and>
     ip_latency_map (add_client client_id ip latency (Some n) is_bot nm) = ip_latency_map nm \<and>
     client_ip_map (add_client client_id ip latency (Some n) is_bot nm) = client_ip_map nm \<and>
     obs_status_map (add_client client_id ip latency (Some n) is_bot nm) = obs_status_map nm"
proof -
  assume n: "n \<in> set BOT_NAMES"
  then have "n \<noteq> []" by (auto simp: BOT_NAMES_def)
  with n show ?thesis
    by (simp add: add_client_def Let_def update_conv')
qed

theorem add_client_bot_name_witness:
  "''Sarge'' \<in> set BOT_NAMES \<and>
   map_of (client_type_map
      (add_client 4 (Some ''10.0.0.7'') (Some 50) (Some ''Sarge'') False
         (init_NetworkManager ''enp1s0'' True [10, 50] True))) 4 = Some ''BOT'' \<and>
   ip_latency_map
      (add_client 4 (Some ''10.0.0.7'') (Some 50) (Some ''Sarge'') False
         (init_NetworkManager ''enp1s0'' True [10, 50] True)) = []"
proof -
  have h: "''Sarge'' \<in> set BOT_NAMES" by (simp add: BOT_NAMES_def)
  show ?thesis
    using h add_client_bot_name [OF h, of 4 "Some ''10.0.0.7''" "Some 50" False
        "init_NetworkManager ''enp1s0'' True [10, 50] True"]
    by (simp add: init_NetworkManager_def)
qed


section \<open>Properties of the dedup cache and of the polling loop\<close>


lemma evict_drop: "evict xs = drop (length xs - max_seen_cache) xs"
proof (induction xs rule: evict.induct)
  case (1 seen)
  show ?case
  proof (cases "length seen > max_seen_cache")
    case True
    then have "evict seen = evict (drop 1 seen)" by (subst evict.simps) simp
    also have "\<dots> = drop (length (drop 1 seen) - max_seen_cache) (drop 1 seen)"
      using "1.IH" [OF True] .
    also have "\<dots> = drop (length seen - max_seen_cache) seen"
      using True by (simp add: Suc_diff_Suc)
    finally show ?thesis .
  next
    case False
    then show ?thesis by (subst evict.simps) simp
  qed
qed

lemma length_evict: "length (evict xs) \<le> max_seen_cache"
  by (simp add: evict_drop)

lemma process_entry_seen:
  "seen_messages (snd (process_entry process e a)) =
     (if msg_key e \<in> set (seen_messages a) then seen_messages a
      else evict (seen_messages a @ [msg_key e]))"
  by (simp add: process_entry_def Let_def split: prod.splits)

lemma process_entry_flags:
  "amp_polling (snd (process_entry process e a)) = amp_polling a \<and>
   authenticated (snd (process_entry process e a)) = authenticated a \<and>
   amp_shutdown_requested (snd (process_entry process e a)) = amp_shutdown_requested a"
  by (simp add: process_entry_def Let_def split: prod.splits)

lemma process_entry_seen_before:
  "msg_key e \<in> set (seen_messages a) \<Longrightarrow> process_entry process e a = ([], a)"
  by (simp add: process_entry_def)

lemma process_entries_append:
  "process_entries process (xs @ ys) a =
     (case process_entries process xs a of
        (ms, a1) \<Rightarrow> (case process_entries process ys a1 of (ms', a2) \<Rightarrow> (ms @ ms', a2)))"
  by (induction xs arbitrary: a) (auto split: prod.splits)

lemma process_entries_flags:
  "amp_polling (snd (process_entries process es a)) = amp_polling a \<and>
   authenticated (snd (process_entries process es a)) = authenticated a \<and>
   amp_shutdown_requested (snd (process_entries process es a)) = amp_shutdown_requested a"
proof (induction es arbitrary: a)
  case Nil
  show ?case by simp
next
  case (Cons e es)
  obtain ms a1 where 1: "process_entry process e a = (ms, a1)" by force
  obtain ms' a2 where 2: "process_entries process es a1 = (ms', a2)" by force
  show ?case
    using Cons.IH [of a1] process_entry_flags [of process e a] 1 2 by simp
qed

lemma among_last_in: "among_last n k xs \<Longrightarrow> k \<in> set xs"
  by (auto simp: among_last_def dest: in_set_dropD)

lemma among_last_step:
  assumes "among_last n k xs" "length xs \<le> max_seen_cache" "Suc n < max_seen_cache"
  shows "among_last (Suc n) k (seen_messages (snd (process_entry process e (a\<lparr>seen_messages := xs\<rparr>))))"
proof (cases "msg_key e \<in> set xs")
  case True
  have "set (drop (length xs - Suc n) xs) \<subseteq> set (drop (length xs - Suc (Suc n)) xs)"
    by (rule set_drop_subset_set_drop) simp
  with assms(1) True show ?thesis
    by (auto simp: among_last_def process_entry_seen)
next
  case False
  let ?ys = "xs @ [msg_key e]"
  have seen: "seen_messages (snd (process_entry process e (a\<lparr>seen_messages := xs\<rparr>))) = drop (length ?ys - max_seen_cache) ?ys"
    using False by (simp add: process_entry_seen evict_drop)
  have k: "k \<in> set (drop (length xs - Suc n) xs)" using assms(1) by (simp add: among_last_def)
  have ar: "length xs - Suc (Suc (length xs) - max_seen_cache + n) + (Suc (length xs) - max_seen_cache)
          = length xs - Suc n"
    using assms(2,3) by arith
  have "drop (length (drop (length ?ys - max_seen_cache) ?ys) - Suc (Suc n)) (drop (length ?ys - max_seen_cache) ?ys)
        = drop (length xs - Suc n) xs @ [msg_key e]"
    using assms(2,3) by (simp add: ar)
  with k show ?thesis unfolding among_last_def seen by simp
qed


lemma length_seen_process_entry:
  "length (seen_messages a) \<le> max_seen_cache \<Longrightarrow>
   length (seen_messages (snd (process_entry process e a))) \<le> max_seen_cache"
  by (simp add: process_entry_seen length_evict)

lemma among_last_step':
  assumes "among_last n k (seen_messages a)" "length (seen_messages a) \<le> max_seen_cache"
    "Suc n < max_seen_cache"
  shows "among_last (Suc n) k (seen_messages (snd (process_entry process e a)))"
  using among_last_step [OF assms, of process e a] by simp

lemma among_last_entries:
  "among_last n k (seen_messages a) \<Longrightarrow> length (seen_messages a) \<le> max_seen_cache \<Longrightarrow>
   n + length es < max_seen_cache \<Longrightarrow>
   among_last (n + length es) k (seen_messages (snd (process_entries process es a))) \<and>
   length (seen_messages (snd (process_entries process es a))) \<le> max_seen_cache"
proof (induction es arbitrary: a n)
  case Nil
  then show ?case by simp
next
  case (Cons e es)
  obtain ms a1 where 1: "process_entry process e a = (ms, a1)" by force
  obtain ms' a2 where 2: "process_entries process es a1 = (ms', a2)" by force
  have s1: "among_last (Suc n) k (seen_messages a1)"
    using among_last_step' [of n k a process e] Cons.prems 1 by simp
  have l1: "length (seen_messages a1) \<le> max_seen_cache"
    using length_seen_process_entry [of a process e] Cons.prems 1 by simp
  have "among_last (Suc n + length es) k (seen_messages (snd (process_entries process es a1))) \<and>
        length (seen_messages (snd (process_entries process es a1))) \<le> max_seen_cache"
    using Cons.IH [OF s1 l1] Cons.prems(3) by simp
  then show ?case using 1 2 by simp
qed

lemma among_last_mono: "among_last n k xs \<Longrightarrow> n \<le> m \<Longrightarrow> among_last m k xs"
proof -
  assume a: "among_last n k xs" and nm: "n \<le> m"
  have "set (drop (length xs - Suc n) xs) \<subseteq> set (drop (length xs - Suc m) xs)"
    by (rule set_drop_subset_set_drop) (use nm in simp)
  with a show ?thesis by (auto simp: among_last_def)
qed

lemma among_last_poll_loop:
  "among_last n k (seen_messages a) \<Longrightarrow> length (seen_messages a) \<le> max_seen_cache \<Longrightarrow>
   n + entry_count tr < max_seen_cache \<Longrightarrow>
   among_last (n + entry_count tr) k (seen_messages (snd (poll_loop process tr a))) \<and>
   length (seen_messages (snd (poll_loop process tr a))) \<le> max_seen_cache"
proof (induction tr arbitrary: a n)
  case Nil
  then show ?case by simp
next
  case (Cons r rs)
  show ?case
  proof (cases "amp_polling a \<and> authenticated a \<and> \<not> amp_shutdown_requested a")
    case False
    then have "poll_loop process (r # rs) a = ([], a)" by auto
    with Cons.prems show ?thesis
      using among_last_mono [of n k "seen_messages a" "n + entry_count (r # rs)"] by simp
  next
    case True
    show ?thesis
    proof (cases r)
      case (Updates es)
      obtain ms a1 where 1: "process_entries process es a = (ms, a1)" by force
      obtain ms' a2 where 2: "poll_loop process rs a1 = (ms', a2)" by force
      have e: "among_last (n + length es) k (seen_messages a1) \<and>
               length (seen_messages a1) \<le> max_seen_cache"
        using among_last_entries [of n k a es process] Cons.prems Updates 1 by simp
      have "among_last (n + length es + entry_count rs) k
              (seen_messages (snd (poll_loop process rs a1))) \<and>
            length (seen_messages (snd (poll_loop process rs a1))) \<le> max_seen_cache"
        using Cons.IH [of "n + length es" a1] e Cons.prems(3) Updates by simp
      then show ?thesis using True Updates 1 2 by (simp add: add.assoc)
    next
      case (Api_error ok)
      show ?thesis
      proof (cases ok)
        case True
        have "among_last (n + entry_count rs) k
                (seen_messages (snd (poll_loop process rs (a\<lparr>authenticated := True\<rparr>)))) \<and>
              length (seen_messages (snd (poll_loop process rs (a\<lparr>authenticated := True\<rparr>))))
                \<le> max_seen_cache"
          using Cons.IH [of n "a\<lparr>authenticated := True\<rparr>"] Cons.prems Api_error by simp
        then show ?thesis using \<open>amp_polling a \<and> authenticated a \<and> \<not> amp_shutdown_requested a\<close>
            Api_error True by simp
      next
        case False
        then show ?thesis
          using \<open>amp_polling a \<and> authenticated a \<and> \<not> amp_shutdown_requested a\<close> Api_error
            Cons.prems among_last_mono [of n k "seen_messages a" "n + entry_count rs"]
          by simp
      qed
    qed
  qed
qed

lemma poll_loop_stopped:
  "\<not> (amp_polling a \<and> authenticated a \<and> \<not> amp_shutdown_requested a) \<Longrightarrow>
   poll_loop process tr a = ([], a)"
  by (cases tr) auto

lemma poll_loop_append:
  "poll_loop process (tr1 @ tr2) a =
     (case poll_loop process tr1 a of
        (ms, a1) \<Rightarrow> (case poll_loop process tr2 a1 of (ms', a2) \<Rightarrow> (ms @ ms', a2)))"
proof (induction tr1 arbitrary: a)
  case Nil
  show ?case by (simp split: prod.splits)
next
  case (Cons r rs)
  show ?case
  proof (cases "amp_polling a \<and> authenticated a \<and> \<not> amp_shutdown_requested a")
    case False
    then show ?thesis
      using poll_loop_stopped [of a process tr2] by auto
  next
    case True
    show ?thesis
    proof (cases r)
      case (Updates es)
      then show ?thesis using True Cons.IH by (simp split: prod.splits)
    next
      case (Api_error ok)
      then show ?thesis
        using True Cons.IH poll_loop_stopped [of "a\<lparr>authenticated := False\<rparr>" process tr2]
        by (cases ok) (simp_all split: prod.splits)
    qed
  qed
qed


lemma max_seen_cache_pos: "0 < max_seen_cache"
  by (simp add: max_seen_cache_def)

lemma among_last_after_insert:
  assumes "msg_key e \<notin> set (seen_messages a)"
  shows "among_last 0 (msg_key e) (seen_messages (snd (process_entry process e a)))"
proof -
  let ?ys = "seen_messages a @ [msg_key e]"
  let ?d = "length ?ys - max_seen_cache"
  have "drop (length (drop ?d ?ys) - Suc 0) (drop ?d ?ys) = [msg_key e]"
    using max_seen_cache_pos by (simp add: Suc_diff_le)
  then show ?thesis
    using assms by (simp add: among_last_def process_entry_seen evict_drop)
qed

lemma fed_twice_in_one_poll:
  assumes new: "msg_key e \<notin> set (seen_messages a)" and same: "msg_key e' = msg_key e"
    and len: "length mid < max_seen_cache"
  shows "process_entries process (e # mid @ [e']) a = process_entries process (e # mid) a"
proof -
  obtain ms a1 where 1: "process_entry process e a = (ms, a1)" by force
  obtain ms' a2 where 2: "process_entries process mid a1 = (ms', a2)" by force
  have "among_last 0 (msg_key e) (seen_messages a1)"
    using among_last_after_insert [OF new, of process] 1 by simp
  moreover have "length (seen_messages a1) \<le> max_seen_cache"
    using process_entry_seen [of process e a] new 1 by (simp add: length_evict)
  ultimately have "among_last (0 + length mid) (msg_key e) (seen_messages a2)"
    using among_last_entries [of 0 "msg_key e" a1 mid process] len 2 by simp
  then have "msg_key e' \<in> set (seen_messages a2)"
    using same by (simp add: among_last_in)
  then have "process_entry process e' a2 = ([], a2)" by (rule process_entry_seen_before)
  then show ?thesis using 1 2 by (simp add: process_entries_append)
qed

lemma fed_twice_across_polls:
  assumes new: "msg_key e \<notin> set (seen_messages a)" and same: "msg_key e' = msg_key e"
    and len: "length mid1 + entry_count tr + length mid2 < max_seen_cache"
  shows "poll_loop process (Updates (e # mid1) # tr @ [Updates (mid2 @ [e'])]) a =
         poll_loop process (Updates (e # mid1) # tr @ [Updates mid2]) a"
proof -
  let ?pre = "Updates [e] # Updates mid1 # tr"
  have split1: "\<And>es b. poll_loop process (Updates (e # mid1) # tr @ [Updates es]) b =
                        poll_loop process (Updates (e # mid1) # tr) b \<or> True" by simp
  obtain ms a1 where 1: "poll_loop process (Updates (e # mid1) # tr) a = (ms, a1)" by force
  have app: "\<And>es. poll_loop process (Updates (e # mid1) # tr @ [Updates es]) a =
              (case poll_loop process [Updates es] a1 of (ms', a2) \<Rightarrow> (ms @ ms', a2))"
    using poll_loop_append [of process "Updates (e # mid1) # tr" _ a] 1 by simp
  show ?thesis
  proof (cases "amp_polling a \<and> authenticated a \<and> \<not> amp_shutdown_requested a")
    case False
    show ?thesis by (simp only: poll_loop_stopped [OF False])
  next
    case True
    obtain ms0 a0 where 0: "process_entry process e a = (ms0, a0)" by force
    have a0_last: "among_last 0 (msg_key e) (seen_messages a0)"
      using among_last_after_insert [OF new, of process] 0 by simp
    have a0_len: "length (seen_messages a0) \<le> max_seen_cache"
      using process_entry_seen [of process e a] new 0 by (simp add: length_evict)
    have a0_flags: "amp_polling a0 \<and> authenticated a0 \<and> \<not> amp_shutdown_requested a0"
      using process_entry_flags [of process e a] True 0 by simp
    have run: "poll_loop process (Updates (e # mid1) # tr) a =
               (case poll_loop process (Updates mid1 # tr) a0 of (ms', a2) \<Rightarrow> (ms0 @ ms', a2))"
      using True a0_flags 0 by (simp split: prod.splits)
    have "among_last (0 + entry_count (Updates mid1 # tr)) (msg_key e)
            (seen_messages (snd (poll_loop process (Updates mid1 # tr) a0))) \<and>
          length (seen_messages (snd (poll_loop process (Updates mid1 # tr) a0))) \<le> max_seen_cache"
      using among_last_poll_loop [of 0 "msg_key e" a0 "Updates mid1 # tr" process]
        a0_last a0_len len by simp
    then have a1_last: "among_last (length mid1 + entry_count tr) (msg_key e) (seen_messages a1)"
      and a1_len: "length (seen_messages a1) \<le> max_seen_cache"
      using run 1 by (auto split: prod.splits)
    have "process_entries process (mid2 @ [e']) a1 = process_entries process mid2 a1"
    proof -
      obtain ms2 a2 where 2: "process_entries process mid2 a1 = (ms2, a2)" by force
      have "among_last (length mid1 + entry_count tr + length mid2) (msg_key e) (seen_messages a2)"
        using among_last_entries [of "length mid1 + entry_count tr" "msg_key e" a1 mid2 process]
          a1_last a1_len len 2 by simp
      then have "msg_key e' \<in> set (seen_messages a2)"
        using same by (simp add: among_last_in)
      then have "process_entry process e' a2 = ([], a2)" by (rule process_entry_seen_before)
      then show ?thesis using 2 by (simp add: process_entries_append)
    qed
    then have "poll_loop process [Updates (mid2 @ [e'])] a1 = poll_loop process [Updates mid2] a1"
      by simp
    then show ?thesis by (simp only: app)
  qed
qed

lemma distinct_seen_process_entry:
  "distinct (seen_messages a) \<Longrightarrow> distinct (seen_messages (snd (process_entry process e a)))"
  by (auto simp: process_entry_seen evict_drop simp del: drop_append intro!: distinct_drop)

lemma full_cache_insert:
  assumes "msg_key e \<notin> set (seen_messages a)" "length (seen_messages a) = max_seen_cache"
  shows "seen_messages (snd (process_entry process e a)) = drop 1 (seen_messages a) @ [msg_key e]"
  using assms max_seen_cache_pos by (simp add: process_entry_seen evict_drop)

lemma full_cache_evicts_oldest:
  assumes "msg_key e \<notin> set (seen_messages a)" "length (seen_messages a) = max_seen_cache"
    "distinct (seen_messages a)"
  shows "hd (seen_messages a) \<notin> set (seen_messages (snd (process_entry process e a)))"
proof -
  from assms(2) max_seen_cache_pos obtain x xs where xs: "seen_messages a = x # xs"
    by (cases "seen_messages a") auto
  with assms show ?thesis by (auto simp: full_cache_insert)
qed

lemma length_seen_process_entries:
  "length (seen_messages b) \<le> max_seen_cache \<Longrightarrow>
   length (seen_messages (snd (process_entries process es b))) \<le> max_seen_cache"
proof (induction es arbitrary: b)
  case Nil
  then show ?case by simp
next
  case (Cons e es)
  obtain ms b1 where 1: "process_entry process e b = (ms, b1)" by force
  have "length (seen_messages b1) \<le> max_seen_cache"
    using length_seen_process_entry [OF Cons.prems, of process e] 1 by simp
  from Cons.IH [OF this] show ?case using 1 by (auto split: prod.splits)
qed

lemma length_seen_poll_loop:
  "length (seen_messages a) \<le> max_seen_cache \<Longrightarrow>
   length (seen_messages (snd (poll_loop process tr a))) \<le> max_seen_cache"
proof (induction tr arbitrary: a)
  case Nil
  then show ?case by simp
next
  case (Cons r rs)
  show ?case
  proof (cases "amp_polling a \<and> authenticated a \<and> \<not> amp_shutdown_requested a")
    case False
    show ?thesis using Cons.prems by (simp only: poll_loop_stopped [OF False] snd_conv)
  next
    case True
    show ?thesis
    proof (cases r)
      case (Updates entries)
      obtain ms a1 where 1: "process_entries process entries a = (ms, a1)" by force
      have "length (seen_messages a1) \<le> max_seen_cache"
        using length_seen_process_entries [OF Cons.prems, of process entries] 1 by simp
      from Cons.IH [OF this] show ?thesis using True Updates 1 by (auto split: prod.splits)
    next
      case (Api_error ok)
      show ?thesis
        using True Api_error Cons.prems Cons.IH [of "a\<lparr>authenticated := True\<rparr>"]
        by (cases ok) simp_all
    qed
  qed
qed

lemma length_seen_read_messages:
  "length (seen_messages (snd (read_messages process tr a))) \<le> max_seen_cache"
  unfolding read_messages_def by (rule length_seen_poll_loop) simp


lemma drop_append_le: "n \<le> length xs \<Longrightarrow> drop n (xs @ ys) = drop n xs @ ys"
  by simp

lemma seen_fresh_entries:
  "distinct (map msg_key es) \<Longrightarrow> set (map msg_key es) \<inter> set (seen_messages a) = {} \<Longrightarrow>
   length (seen_messages a) \<le> max_seen_cache \<Longrightarrow>
   seen_messages (snd (process_entries process es a)) =
     drop (length (seen_messages a) + length es - max_seen_cache)
       (seen_messages a @ map msg_key es)"
proof (induction es arbitrary: a)
  case Nil
  then show ?case by simp
next
  case (Cons e es)
  obtain ms a1 where 1: "process_entry process e a = (ms, a1)" by force
  let ?k = "msg_key e"
  let ?d = "Suc (length (seen_messages a)) - max_seen_cache"
  have new: "?k \<notin> set (seen_messages a)" using Cons.prems(2) by auto
  have s1: "seen_messages a1 = drop ?d (seen_messages a @ [?k])"
    using process_entry_seen [of process e a] new 1 by (simp add: evict_drop del: drop_append)
  have sub: "set (seen_messages a1) \<subseteq> insert ?k (set (seen_messages a))"
    unfolding s1 using set_drop_subset [of ?d "seen_messages a @ [?k]"] by auto
  have d1: "distinct (map msg_key es)" using Cons.prems(1) by simp
  have i1: "set (map msg_key es) \<inter> set (seen_messages a1) = {}"
  proof -
    have "k \<notin> set (seen_messages a1)" if k: "k \<in> set (map msg_key es)" for k
    proof
      assume "k \<in> set (seen_messages a1)"
      with sub have "k = ?k \<or> k \<in> set (seen_messages a)" by auto
      then show False
      proof
        assume "k = ?k"
        with k Cons.prems(1) show False by simp
      next
        assume "k \<in> set (seen_messages a)"
        with k Cons.prems(2) show False by auto
      qed
    qed
    then show ?thesis by blast
  qed
  have l1: "length (seen_messages a1) \<le> max_seen_cache"
    using length_seen_process_entry [OF Cons.prems(3), of process e] 1 by simp
  have len1: "length (seen_messages a1) = Suc (length (seen_messages a)) - ?d"
    unfolding s1 by simp
  have dle: "?d \<le> length (seen_messages a @ [?k])" by simp
  have "seen_messages (snd (process_entries process es a1)) =
        drop (length (seen_messages a1) + length es - max_seen_cache)
          (seen_messages a1 @ map msg_key es)"
    by (rule Cons.IH [OF d1 i1 l1])
  also have "seen_messages a1 @ map msg_key es = drop ?d ((seen_messages a @ [?k]) @ map msg_key es)"
    unfolding s1 by (rule drop_append_le [OF dle, symmetric])
  also have "drop (length (seen_messages a1) + length es - max_seen_cache) \<dots> =
             drop (length (seen_messages a1) + length es - max_seen_cache + ?d)
               ((seen_messages a @ [?k]) @ map msg_key es)"
    by (simp only: drop_drop)
  also have "length (seen_messages a1) + length es - max_seen_cache + ?d =
             length (seen_messages a) + length (e # es) - max_seen_cache"
    unfolding len1 using Cons.prems(3) by (simp; arith)
  finally show ?case using 1 by (auto split: prod.splits)
qed

lemma split_on_no_sep: "sep \<notin> set s \<Longrightarrow> split_on sep s = [s]"
  by (induction s) auto

lemma yield_lines_echo: "fst (yield_lines echo_line ls p) = filter (\<lambda>l. strip l \<noteq> []) ls"
  by (induction ls arbitrary: p) (auto simp: echo_line_def split: prod.splits)

lemma process_entries_echo_subset:
  "m \<in> set (fst (process_entries echo_line es a)) \<Longrightarrow>
   \<exists>e \<in> set es. m \<in> set (split_on CHR 0x0A (contents e))"
proof (induction es arbitrary: a)
  case Nil
  then show ?case by simp
next
  case (Cons e es)
  obtain ms a1 where 1: "process_entry echo_line e a = (ms, a1)" by force
  obtain ms' a2 where 2: "process_entries echo_line es a1 = (ms', a2)" by force
  from Cons.prems 1 2 have "m \<in> set ms \<or> m \<in> set ms'" by simp
  then show ?case
  proof
    assume "m \<in> set ms"
    moreover have "set ms \<subseteq> set (split_on CHR 0x0A (contents e))"
      using 1 yield_lines_echo [of "split_on CHR 0x0A (contents e)"]
      by (auto simp: process_entry_def Let_def split: if_splits prod.splits)
    ultimately show ?thesis by auto
  next
    assume "m \<in> set ms'"
    then show ?thesis using Cons.IH [of a1] 2 by auto
  qed
qed

lemma thousand_keys_distinct: "distinct (map msg_key thousand_entries)"
proof -
  have "inj_on (\<lambda>i. msg_key (entry_at (replicate (Suc i) CHR ''a''))) (set [0..<1000])"
    by (rule inj_onI) (simp add: msg_key_def entry_at_def replicate_eq_replicate)
  then show ?thesis
    by (simp add: thousand_entries_def distinct_map comp_def)
qed

lemma b_not_in_thousand_keys: "msg_key (entry_at ''b'') \<notin> set (map msg_key thousand_entries)"
  by (auto simp: thousand_entries_def msg_key_def entry_at_def)

lemma b_not_in_thousand_output:
  "''b'' \<notin> set (fst (process_entries echo_line thousand_entries a))"
proof
  assume "''b'' \<in> set (fst (process_entries echo_line thousand_entries a))"
  then obtain e where e: "e \<in> set thousand_entries" "''b'' \<in> set (split_on CHR 0x0A (contents e))"
    using process_entries_echo_subset by blast
  then obtain i where "contents e = replicate (Suc i) CHR ''a''"
    by (auto simp: thousand_entries_def entry_at_def)
  moreover have "CHR 0x0A \<notin> set (replicate (Suc i) CHR ''a'')" for i by simp
  ultimately have "''b'' = replicate (Suc i) CHR ''a''"
    using e(2) by (simp add: split_on_no_sep del: replicate_Suc)
  then show False by simp
qed

lemma length_thousand [simp]: "length thousand_entries = 1000"
  by (simp add: thousand_entries_def)

lemma b_once:
  "msg_key (entry_at ''b'') \<notin> set (seen_messages a) \<Longrightarrow>
   process_entries echo_line [entry_at ''b''] a =
     ([''b''], a\<lparr>seen_messages := evict (seen_messages a @ [msg_key (entry_at ''b'')])\<rparr>)"
  by (simp add: process_entry_def Let_def entry_at_def echo_line_def strip_def lstrip_def
      rstrip_def isspace_def msg_key_def)

text \<open>
  C1 as stated fails for entries fed across polls: an entry is fed, a poll delivers a
  thousand entries with other keys, and the first entry is fed again.  Its key has been
  evicted in between, so its event is yielded a second time.
\<close>

theorem dedup_after_thousand_other_keys_counterexample:
  "count_list
     (fst (read_messages echo_line
        [Updates [entry_at ''b''], Updates thousand_entries, Updates [entry_at ''b'']]
        polling_adapter)) ''b'' = 2"
proof -
  let ?kb = "msg_key (entry_at ''b'')"
  let ?a1 = "polling_adapter\<lparr>seen_messages := [?kb]\<rparr>"
  have p0: "polling_adapter\<lparr>amp_polling := True, seen_messages := []\<rparr> = polling_adapter"
    by (simp add: polling_adapter_def)
  have 1: "process_entries echo_line [entry_at ''b''] polling_adapter = ([''b''], ?a1)"
    using b_once [of polling_adapter]
    by (simp add: polling_adapter_def evict_drop max_seen_cache_def)
  obtain ms2 a2 where 2: "process_entries echo_line thousand_entries ?a1 = (ms2, a2)" by force
  have nb: "''b'' \<notin> set ms2" using b_not_in_thousand_output [of ?a1] 2 by simp
  have "seen_messages a2 = drop (length (seen_messages ?a1) + length thousand_entries - max_seen_cache)
          (seen_messages ?a1 @ map msg_key thousand_entries)"
    using seen_fresh_entries [of thousand_entries ?a1 echo_line] thousand_keys_distinct
      b_not_in_thousand_keys 2
    by (simp add: max_seen_cache_def)
  then have s2: "seen_messages a2 = map msg_key thousand_entries"
    by (simp add: max_seen_cache_def)
  have f2: "amp_polling a2 \<and> authenticated a2 \<and> \<not> amp_shutdown_requested a2"
    using process_entries_flags [of echo_line thousand_entries ?a1] 2
    by (simp add: polling_adapter_def)
  obtain a3 where 3: "process_entries echo_line [entry_at ''b''] a2 = ([''b''], a3)"
    using b_once [of a2] b_not_in_thousand_keys s2 by simp
  have "fst (read_messages echo_line
          [Updates [entry_at ''b''], Updates thousand_entries, Updates [entry_at ''b'']]
          polling_adapter) = ''b'' # ms2 @ [''b'']"
  proof -
    have c0: "amp_polling polling_adapter \<and> authenticated polling_adapter \<and>
              \<not> amp_shutdown_requested polling_adapter"
      by (simp add: polling_adapter_def)
    have c1: "amp_polling ?a1 \<and> authenticated ?a1 \<and> \<not> amp_shutdown_requested ?a1"
      by (simp add: polling_adapter_def)
    have l3: "poll_loop echo_line [Updates [entry_at ''b'']] a2 = ([''b''], a3)"
      using f2 3 by (simp del: process_entries.simps)
    have l2: "poll_loop echo_line [Updates thousand_entries, Updates [entry_at ''b'']] ?a1 =
              (ms2 @ [''b''], a3)"
      using c1 2 l3 by (simp del: process_entries.simps)
    have "poll_loop echo_line
            [Updates [entry_at ''b''], Updates thousand_entries, Updates [entry_at ''b'']]
            polling_adapter = (''b'' # ms2 @ [''b''], a3)"
      using c0 1 l2 by (simp del: process_entries.simps)
    then show ?thesis unfolding read_messages_def p0 by simp
  qed
  then show ?thesis using nb by (simp add: count_list_0_iff)
qed


lemma in_seen_after_insert:
  "msg_key e \<notin> set (seen_messages a) \<Longrightarrow>
   msg_key e \<in> set (seen_messages (snd (process_entry process e a)))"
  using among_last_after_insert [of e a process] by (rule among_last_in)

lemma process_entry_fresh:
  "msg_key e \<notin> set (seen_messages a) \<Longrightarrow>
   process_entry process e a =
     (fst (yield_lines process (split_on CHR 0x0A (contents e)) (message_processor a)),
      a\<lparr>seen_messages := evict (seen_messages a @ [msg_key e]),
        message_processor :=
          snd (yield_lines process (split_on CHR 0x0A (contents e)) (message_processor a))\<rparr>)"
  by (simp add: process_entry_def Let_def split: prod.splits)

lemma yield_lines_length:
  "length (fst (yield_lines process ls p)) = length (filter (\<lambda>l. strip l \<noteq> []) ls)"
proof (induction ls arbitrary: p)
  case Nil
  show ?case by simp
next
  case (Cons l ls)
  show ?case
  proof (cases "strip l \<noteq> []")
    case True
    obtain m p1 where 1: "process l p = (m, p1)" by force
    obtain ms p2 where 2: "yield_lines process ls p1 = (ms, p2)" by force
    have "length ms = length (filter (\<lambda>l. strip l \<noteq> []) ls)"
      using Cons.IH [of p1] 2 by simp
    then show ?thesis using True 1 2 by simp
  next
    case False
    then show ?thesis using Cons.IH [of p] by simp
  qed
qed

lemma yield_lines_stateless:
  "yield_lines (\<lambda>l q. (f l, q)) ls p = (map f (filter (\<lambda>l. strip l \<noteq> []) ls), p)"
  by (induction ls arbitrary: p) auto

lemma process_entries_Cons_fst:
  "fst (process_entries process (e # es) a) =
     fst (process_entry process e a) @
     fst (process_entries process es (snd (process_entry process e a)))"
  by (cases "process_entry process e a";
      cases "process_entries process es (snd (process_entry process e a))") simp

lemma poll_loop_Cons_entry_fst:
  assumes c: "amp_polling a \<and> authenticated a \<and> \<not> amp_shutdown_requested a"
  shows "fst (poll_loop process (Updates (e # es) # rs) a) =
           fst (process_entry process e a) @
           fst (poll_loop process (Updates es # rs) (snd (process_entry process e a)))"
proof -
  obtain ms a1 where 1: "process_entry process e a = (ms, a1)" by force
  obtain ms' a2 where 2: "process_entries process es a1 = (ms', a2)" by force
  obtain ms'' a3 where 3: "poll_loop process rs a2 = (ms'', a3)" by force
  have c1: "amp_polling a1 \<and> authenticated a1 \<and> \<not> amp_shutdown_requested a1"
    using process_entry_flags [of process e a] c 1 by simp
  have l: "poll_loop process (Updates (e # es) # rs) a = (ms @ ms' @ ms'', a3)"
    using c 1 2 3 by simp
  have r: "poll_loop process (Updates es # rs) a1 = (ms' @ ms'', a3)"
    using c1 2 3 by simp
  show ?thesis using l r 1 by simp
qed

lemma echo_runs:
  "fst (process_entry echo_line (entry_at ''b'') polling_adapter) = [''b''] \<and>
   fst (process_entries echo_line [entry_at ''b'', entry_at ''c'', entry_at ''b'']
          polling_adapter) = [''b'', ''c''] \<and>
   fst (poll_loop echo_line
          [Updates [entry_at ''b'', entry_at ''c''], Api_error True,
           Updates [entry_at ''d'', entry_at ''b'']] polling_adapter) = [''b'', ''c'', ''d'']"
  by code_simp

lemma cache_after_thousand_new_keys:
  assumes d: "distinct (map msg_key es)"
    and n: "set (map msg_key es) \<inter> set (seen_messages a) = {}"
    and l: "length (seen_messages a) \<le> 1000" and t: "1000 \<le> length es"
  shows "seen_messages (snd (process_entries process es a)) =
           drop (length es - 1000) (map msg_key es) \<and>
         (k \<in> set (seen_messages a) \<longrightarrow>
            k \<notin> set (seen_messages (snd (process_entries process es a))))"
proof -
  have "seen_messages (snd (process_entries process es a)) =
        drop (length (seen_messages a) + length es - 1000) (seen_messages a @ map msg_key es)"
    using seen_fresh_entries [OF d n, of process] l by (simp add: max_seen_cache_def)
  also have "\<dots> = drop (length es - 1000) (map msg_key es)"
    using t by simp
  finally have s: "seen_messages (snd (process_entries process es a)) =
                   drop (length es - 1000) (map msg_key es)" .
  have "k \<notin> set (drop (length es - 1000) (map msg_key es))" if "k \<in> set (seen_messages a)"
  proof
    assume "k \<in> set (drop (length es - 1000) (map msg_key es))"
    then have "k \<in> set (map msg_key es)" by (rule in_set_dropD)
    with that n show False by blast
  qed
  with s show ?thesis by simp
qed

text \<open>
  C1 (as the code has it).  An entry whose key is in the dedup cache yields nothing and
  leaves the adapter unchanged.  An entry whose key is not in the cache yields the events
  of its lines: one event for every line that is not blank, in the order of the lines,
  each the processor's result for that line (for a processor without state, the
  processor's function applied to those lines); its key is inserted, and after the
  insertion the cache holds at most 1000 keys.  The cache holds at most 1000 keys after
  any run of the event loop.  Inserting a new key into a cache of 1000 keys removes the
  first-inserted key and appends the new one.  When an entry with a new key is fed and an
  entry with the same key is fed again, within the same poll or in a later poll
  (re-logins in between or not), and fewer than 1000 entries were fed in between, the
  events of the entry are yielded at its first feeding, and the second feeding yields
  nothing and changes nothing: the entry's events are yielded once.  After a thousand or
  more entries with new, pairwise different keys have been fed, the cache holds the last
  thousand of their keys and none of the keys it held before, so an entry with one of
  those earlier keys is a new entry again.
\<close>

theorem dedup_cache_bounded_and_suppresses_cached_keys:
  "(msg_key e \<in> set (seen_messages a) \<longrightarrow> process_entry process e a = ([], a)) \<and>
   (msg_key e \<notin> set (seen_messages a) \<longrightarrow>
      fst (process_entry process e a) =
        fst (yield_lines process (split_on CHR 0x0A (contents e)) (message_processor a)) \<and>
      length (fst (process_entry process e a)) =
        length (filter (\<lambda>l. strip l \<noteq> []) (split_on CHR 0x0A (contents e))) \<and>
      fst (process_entry (\<lambda>l q. (f l, q)) e a) =
        map f (filter (\<lambda>l. strip l \<noteq> []) (split_on CHR 0x0A (contents e)))) \<and>
   (msg_key e \<notin> set (seen_messages a) \<longrightarrow>
      msg_key e \<in> set (seen_messages (snd (process_entry process e a))) \<and>
      length (seen_messages (snd (process_entry process e a))) \<le> 1000) \<and>
   (msg_key e \<notin> set (seen_messages a) \<and> length (seen_messages a) = 1000 \<longrightarrow>
      seen_messages (snd (process_entry process e a)) =
        drop 1 (seen_messages a) @ [msg_key e] \<and>
      (distinct (seen_messages a) \<longrightarrow>
         hd (seen_messages a) \<notin> set (seen_messages (snd (process_entry process e a))))) \<and>
   length (seen_messages (snd (read_messages process tr a))) \<le> 1000 \<and>
   (msg_key e \<notin> set (seen_messages a) \<and> msg_key e' = msg_key e \<and> length mid < 1000 \<longrightarrow>
      process_entries process (e # mid @ [e']) a = process_entries process (e # mid) a \<and>
      fst (process_entries process (e # mid @ [e']) a) =
        fst (process_entry process e a) @
        fst (process_entries process mid (snd (process_entry process e a)))) \<and>
   (msg_key e \<notin> set (seen_messages a) \<and> msg_key e' = msg_key e \<and>
    length mid1 + entry_count tr' + length mid2 < 1000 \<longrightarrow>
      poll_loop process (Updates (e # mid1) # tr' @ [Updates (mid2 @ [e'])]) a =
      poll_loop process (Updates (e # mid1) # tr' @ [Updates mid2]) a \<and>
      (amp_polling a \<and> authenticated a \<and> \<not> amp_shutdown_requested a \<longrightarrow>
         fst (poll_loop process (Updates (e # mid1) # tr' @ [Updates (mid2 @ [e'])]) a) =
           fst (process_entry process e a) @
           fst (poll_loop process (Updates mid1 # tr' @ [Updates mid2])
                  (snd (process_entry process e a))))) \<and>
   (distinct (map msg_key es) \<and> set (map msg_key es) \<inter> set (seen_messages a) = {} \<and>
    length (seen_messages a) \<le> 1000 \<and> 1000 \<le> length es \<longrightarrow>
      seen_messages (snd (process_entries process es a)) =
        drop (length es - 1000) (map msg_key es) \<and>
      (k \<in> set (seen_messages a) \<longrightarrow>
         k \<notin> set (seen_messages (snd (process_entries process es a)))))"
proof -
  have m: "max_seen_cache = 1000" by (simp add: max_seen_cache_def)
  have 1: "msg_key e \<in> set (seen_messages a) \<longrightarrow> process_entry process e a = ([], a)"
    by (simp add: process_entry_seen_before)
  have 2: "msg_key e \<notin> set (seen_messages a) \<longrightarrow>
      msg_key e \<in> set (seen_messages (snd (process_entry process e a))) \<and>
      length (seen_messages (snd (process_entry process e a))) \<le> 1000"
    using in_seen_after_insert [of e a process] length_evict [of "seen_messages a @ [msg_key e]"]
    by (simp add: process_entry_seen m)
  have 3: "msg_key e \<notin> set (seen_messages a) \<and> length (seen_messages a) = 1000 \<longrightarrow>
      seen_messages (snd (process_entry process e a)) =
        drop 1 (seen_messages a) @ [msg_key e] \<and>
      (distinct (seen_messages a) \<longrightarrow>
         hd (seen_messages a) \<notin> set (seen_messages (snd (process_entry process e a))))"
    using full_cache_insert [of e a process] full_cache_evicts_oldest [of e a process]
    by (simp add: m)
  have 4: "length (seen_messages (snd (read_messages process tr a))) \<le> 1000"
    using length_seen_read_messages [of process tr a] by (simp add: m)
  have 5: "msg_key e \<notin> set (seen_messages a) \<and> msg_key e' = msg_key e \<and> length mid < 1000 \<longrightarrow>
      process_entries process (e # mid @ [e']) a = process_entries process (e # mid) a"
    using fed_twice_in_one_poll [of e a e' mid process] by (simp only: m) blast
  have e5: "msg_key e \<notin> set (seen_messages a) \<and> msg_key e' = msg_key e \<and> length mid < 1000 \<longrightarrow>
      fst (process_entries process (e # mid @ [e']) a) =
        fst (process_entry process e a) @
        fst (process_entries process mid (snd (process_entry process e a)))"
  proof
    assume h: "msg_key e \<notin> set (seen_messages a) \<and> msg_key e' = msg_key e \<and> length mid < 1000"
    with 5 have "process_entries process (e # mid @ [e']) a = process_entries process (e # mid) a"
      by blast
    then show "fst (process_entries process (e # mid @ [e']) a) =
        fst (process_entry process e a) @
        fst (process_entries process mid (snd (process_entry process e a)))"
      using process_entries_Cons_fst [of process e mid a] by (simp only:)
  qed
  have 6: "msg_key e \<notin> set (seen_messages a) \<and> msg_key e' = msg_key e \<and>
    length mid1 + entry_count tr' + length mid2 < 1000 \<longrightarrow>
      poll_loop process (Updates (e # mid1) # tr' @ [Updates (mid2 @ [e'])]) a =
      poll_loop process (Updates (e # mid1) # tr' @ [Updates mid2]) a"
    using fed_twice_across_polls [of e a e' mid1 tr' mid2 process] by (simp only: m) blast
  have e6: "msg_key e \<notin> set (seen_messages a) \<and> msg_key e' = msg_key e \<and>
    length mid1 + entry_count tr' + length mid2 < 1000 \<longrightarrow>
      (amp_polling a \<and> authenticated a \<and> \<not> amp_shutdown_requested a \<longrightarrow>
         fst (poll_loop process (Updates (e # mid1) # tr' @ [Updates (mid2 @ [e'])]) a) =
           fst (process_entry process e a) @
           fst (poll_loop process (Updates mid1 # tr' @ [Updates mid2])
                  (snd (process_entry process e a))))"
  proof (intro impI)
    assume h: "msg_key e \<notin> set (seen_messages a) \<and> msg_key e' = msg_key e \<and>
      length mid1 + entry_count tr' + length mid2 < 1000"
      and c: "amp_polling a \<and> authenticated a \<and> \<not> amp_shutdown_requested a"
    from 6 h have "poll_loop process (Updates (e # mid1) # tr' @ [Updates (mid2 @ [e'])]) a =
      poll_loop process (Updates (e # mid1) # tr' @ [Updates mid2]) a"
      by blast
    then show "fst (poll_loop process (Updates (e # mid1) # tr' @ [Updates (mid2 @ [e'])]) a) =
           fst (process_entry process e a) @
           fst (poll_loop process (Updates mid1 # tr' @ [Updates mid2])
                  (snd (process_entry process e a)))"
      using poll_loop_Cons_entry_fst [OF c, of process e mid1 "tr' @ [Updates mid2]"]
      by (simp only:)
  qed
  have 7: "msg_key e \<notin> set (seen_messages a) \<longrightarrow>
      fst (process_entry process e a) =
        fst (yield_lines process (split_on CHR 0x0A (contents e)) (message_processor a)) \<and>
      length (fst (process_entry process e a)) =
        length (filter (\<lambda>l. strip l \<noteq> []) (split_on CHR 0x0A (contents e))) \<and>
      fst (process_entry (\<lambda>l q. (f l, q)) e a) =
        map f (filter (\<lambda>l. strip l \<noteq> []) (split_on CHR 0x0A (contents e)))"
    by (simp add: process_entry_fresh yield_lines_length yield_lines_stateless)
  have 8: "distinct (map msg_key es) \<and> set (map msg_key es) \<inter> set (seen_messages a) = {} \<and>
    length (seen_messages a) \<le> 1000 \<and> 1000 \<le> length es \<longrightarrow>
      seen_messages (snd (process_entries process es a)) =
        drop (length es - 1000) (map msg_key es) \<and>
      (k \<in> set (seen_messages a) \<longrightarrow>
         k \<notin> set (seen_messages (snd (process_entries process es a))))"
    using cache_after_thousand_new_keys [of es a process k] by blast
  from 1 2 3 4 5 e5 6 e6 7 8 show ?thesis by blast
qed

theorem dedup_cache_bounded_and_suppresses_cached_keys_witness:
  "msg_key (entry_at ''b'') \<in> set (seen_messages (polling_adapter\<lparr>seen_messages := [msg_key (entry_at ''b'')]\<rparr>)) \<and>
   process_entry echo_line (entry_at ''b'')
     (polling_adapter\<lparr>seen_messages := [msg_key (entry_at ''b'')]\<rparr>) =
     ([], polling_adapter\<lparr>seen_messages := [msg_key (entry_at ''b'')]\<rparr>) \<and>
   msg_key (entry_at ''b'') \<notin> set (seen_messages full_adapter) \<and>
   length (seen_messages full_adapter) = 1000 \<and> distinct (seen_messages full_adapter) \<and>
   seen_messages (snd (process_entry echo_line (entry_at ''b'') full_adapter)) =
     drop 1 (seen_messages full_adapter) @ [msg_key (entry_at ''b'')] \<and>
   hd (seen_messages full_adapter) \<notin>
     set (seen_messages (snd (process_entry echo_line (entry_at ''b'') full_adapter))) \<and>
   msg_key (entry_at ''b'') \<notin> set (seen_messages polling_adapter) \<and>
   fst (process_entry echo_line (entry_at ''b'') polling_adapter) = [''b''] \<and>
   length (fst (process_entry echo_line (entry_at ''b'') polling_adapter)) =
     length (filter (\<lambda>l. strip l \<noteq> []) (split_on CHR 0x0A (contents (entry_at ''b'')))) \<and>
   process_entries echo_line (entry_at ''b'' # [entry_at ''c''] @ [entry_at ''b'']) polling_adapter =
     process_entries echo_line (entry_at ''b'' # [entry_at ''c'']) polling_adapter \<and>
   fst (process_entries echo_line (entry_at ''b'' # [entry_at ''c''] @ [entry_at ''b''])
          polling_adapter) = [''b'', ''c''] \<and>
   poll_loop echo_line
     (Updates (entry_at ''b'' # [entry_at ''c'']) # [Api_error True] @
      [Updates ([entry_at ''d''] @ [entry_at ''b''])]) polling_adapter =
   poll_loop echo_line
     (Updates (entry_at ''b'' # [entry_at ''c'']) # [Api_error True] @
      [Updates [entry_at ''d'']]) polling_adapter \<and>
   fst (poll_loop echo_line
     (Updates (entry_at ''b'' # [entry_at ''c'']) # [Api_error True] @
      [Updates ([entry_at ''d''] @ [entry_at ''b''])]) polling_adapter) = [''b'', ''c'', ''d''] \<and>
   fst (poll_loop echo_line
     (Updates (entry_at ''b'' # [entry_at ''c'']) # [Api_error True] @
      [Updates ([entry_at ''d''] @ [entry_at ''b''])]) polling_adapter) =
     fst (process_entry echo_line (entry_at ''b'') polling_adapter) @
     fst (poll_loop echo_line (Updates [entry_at ''c''] # [Api_error True] @
            [Updates [entry_at ''d'']])
            (snd (process_entry echo_line (entry_at ''b'') polling_adapter))) \<and>
   distinct (map msg_key thousand_entries) \<and> 1000 \<le> length thousand_entries \<and>
   msg_key (entry_at ''b'') \<notin>
     set (seen_messages (snd (process_entries echo_line thousand_entries
            (polling_adapter\<lparr>seen_messages := [msg_key (entry_at ''b'')]\<rparr>))))"
proof -
  have h1: "msg_key (entry_at ''b'') \<in>
            set (seen_messages (polling_adapter\<lparr>seen_messages := [msg_key (entry_at ''b'')]\<rparr>))"
    by simp
  have h2: "msg_key (entry_at ''b'') \<notin> set (seen_messages full_adapter)"
    using b_not_in_thousand_keys by (simp add: full_adapter_def)
  have h3: "length (seen_messages full_adapter) = 1000"
    by (simp add: full_adapter_def)
  have h4: "distinct (seen_messages full_adapter)"
    using thousand_keys_distinct by (simp add: full_adapter_def)
  have h5: "msg_key (entry_at ''b'') \<notin> set (seen_messages polling_adapter)"
    by (simp add: polling_adapter_def)
  have h6: "length [entry_at ''c''] < 1000" by simp
  have h7: "length [entry_at ''c''] + entry_count [Api_error True] + length [entry_at ''d''] < 1000"
    by simp
  have h8: "amp_polling polling_adapter \<and> authenticated polling_adapter \<and>
            \<not> amp_shutdown_requested polling_adapter"
    by (simp add: polling_adapter_def)
  have r1: "fst (process_entry echo_line (entry_at ''b'') polling_adapter) = [''b'']"
    using echo_runs by simp
  have r2: "fst (process_entries echo_line (entry_at ''b'' # [entry_at ''c''] @ [entry_at ''b''])
              polling_adapter) = [''b'', ''c'']"
    using echo_runs by simp
  have r3: "fst (poll_loop echo_line
     (Updates (entry_at ''b'' # [entry_at ''c'']) # [Api_error True] @
      [Updates ([entry_at ''d''] @ [entry_at ''b''])]) polling_adapter) = [''b'', ''c'', ''d'']"
    using echo_runs by simp
  note in_cache = dedup_cache_bounded_and_suppresses_cached_keys
        [where e = "entry_at ''b''"
           and a = "polling_adapter\<lparr>seen_messages := [msg_key (entry_at ''b'')]\<rparr>"
           and process = echo_line and tr = "[]" and e' = "entry_at ''b''" and mid = "[]"
           and ?mid1.0 = "[]" and tr' = "[]" and ?mid2.0 = "[]" and f = id
           and es = thousand_entries and k = "msg_key (entry_at ''b'')"]
  note full = dedup_cache_bounded_and_suppresses_cached_keys
        [where e = "entry_at ''b''" and a = full_adapter
           and process = echo_line and tr = "[]" and e' = "entry_at ''b''" and mid = "[]"
           and ?mid1.0 = "[]" and tr' = "[]" and ?mid2.0 = "[]" and f = id
           and es = "[]" and k = "[]"]
  note twice = dedup_cache_bounded_and_suppresses_cached_keys
        [where e = "entry_at ''b''" and a = polling_adapter
           and process = echo_line and tr = "[]" and e' = "entry_at ''b''"
           and mid = "[entry_at ''c'']" and ?mid1.0 = "[entry_at ''c'']"
           and tr' = "[Api_error True]" and ?mid2.0 = "[entry_at ''d'']" and f = id and es = "[]" and k = "[]"]
  have w2: "process_entry echo_line (entry_at ''b'')
     (polling_adapter\<lparr>seen_messages := [msg_key (entry_at ''b'')]\<rparr>) =
     ([], polling_adapter\<lparr>seen_messages := [msg_key (entry_at ''b'')]\<rparr>)"
    using in_cache [THEN conjunct1] h1 by blast
  note full3 = full [THEN conjunct2, THEN conjunct2, THEN conjunct2, THEN conjunct1]
  have w6: "seen_messages (snd (process_entry echo_line (entry_at ''b'') full_adapter)) =
     drop 1 (seen_messages full_adapter) @ [msg_key (entry_at ''b'')]"
    using full3 h2 h3 by blast
  have w7: "hd (seen_messages full_adapter) \<notin>
     set (seen_messages (snd (process_entry echo_line (entry_at ''b'') full_adapter)))"
    using full3 h2 h3 h4 by blast
  have w10: "length (fst (process_entry echo_line (entry_at ''b'') polling_adapter)) =
     length (filter (\<lambda>l. strip l \<noteq> []) (split_on CHR 0x0A (contents (entry_at ''b''))))"
    using twice [THEN conjunct2, THEN conjunct1] h5 by blast
  note twice5 = twice [THEN conjunct2, THEN conjunct2, THEN conjunct2, THEN conjunct2,
    THEN conjunct2, THEN conjunct1]
  have w11: "process_entries echo_line (entry_at ''b'' # [entry_at ''c''] @ [entry_at ''b''])
       polling_adapter =
     process_entries echo_line (entry_at ''b'' # [entry_at ''c'']) polling_adapter"
    using twice5 h5 h6 by blast
  note twice6 = twice [THEN conjunct2, THEN conjunct2, THEN conjunct2, THEN conjunct2,
    THEN conjunct2, THEN conjunct2, THEN conjunct1]
  have w13: "poll_loop echo_line
     (Updates (entry_at ''b'' # [entry_at ''c'']) # [Api_error True] @
      [Updates ([entry_at ''d''] @ [entry_at ''b''])]) polling_adapter =
   poll_loop echo_line
     (Updates (entry_at ''b'' # [entry_at ''c'']) # [Api_error True] @
      [Updates [entry_at ''d'']]) polling_adapter"
    using twice6 h5 h7 by blast
  have w15: "fst (poll_loop echo_line
     (Updates (entry_at ''b'' # [entry_at ''c'']) # [Api_error True] @
      [Updates ([entry_at ''d''] @ [entry_at ''b''])]) polling_adapter) =
     fst (process_entry echo_line (entry_at ''b'') polling_adapter) @
     fst (poll_loop echo_line (Updates [entry_at ''c''] # [Api_error True] @
            [Updates [entry_at ''d'']])
            (snd (process_entry echo_line (entry_at ''b'') polling_adapter)))"
    using twice6 h5 h7 h8 by blast
  note in_cache8 = in_cache [THEN conjunct2, THEN conjunct2, THEN conjunct2, THEN conjunct2,
    THEN conjunct2, THEN conjunct2, THEN conjunct2]
  have h9: "distinct (map msg_key thousand_entries)"
    by (rule thousand_keys_distinct)
  have h10: "1000 \<le> length thousand_entries" by simp
  have h11: "set (map msg_key thousand_entries) \<inter>
             set (seen_messages (polling_adapter\<lparr>seen_messages := [msg_key (entry_at ''b'')]\<rparr>)) = {}"
    using b_not_in_thousand_keys by simp
  have h12: "length (seen_messages (polling_adapter\<lparr>seen_messages := [msg_key (entry_at ''b'')]\<rparr>))
             \<le> 1000"
    by simp
  have w16: "msg_key (entry_at ''b'') \<notin>
     set (seen_messages (snd (process_entries echo_line thousand_entries
            (polling_adapter\<lparr>seen_messages := [msg_key (entry_at ''b'')]\<rparr>))))"
    using in_cache8 h1 h9 h10 h11 h12 by blast
  from h1 w2 h2 h3 h4 w6 w7 h5 r1 w10 w11 r2 w13 r3 w15 h9 h10 w16 show ?thesis
    by (intro conjI)
qed


lemma poll_loop_relogin:
  assumes c: "amp_polling a \<and> authenticated a \<and> \<not> amp_shutdown_requested a"
  shows "poll_loop process (Api_error True # rs) a = poll_loop process rs a"
proof -
  from c have eq: "a\<lparr>authenticated := True\<rparr> = a" by simp
  show ?thesis using c by (simp add: eq)
qed

text \<open>
  C7 (as the code has it).  Starting the event-reading loop clears the dedup cache: the
  loop's result does not depend on the cache it starts with.  \<open>disconnect\<close> clears the
  cache when the adapter is connected and leaves it when it is not; \<open>connect\<close> leaves
  the cache as it is.  A successful re-login after an RPC failure changes nothing: the
  loop goes on with the same cache, so an entry whose key was cached before the failure
  is still suppressed after the re-login.
\<close>

theorem cache_cleared_when_reading_starts_not_on_relogin:
  "read_messages process tr (a\<lparr>seen_messages := s\<rparr>) = read_messages process tr a \<and>
   seen_messages (snd (read_messages process [] a)) = [] \<and>
   (authenticated a \<longrightarrow> seen_messages (disconnect a) = []) \<and>
   (\<not> authenticated a \<longrightarrow> seen_messages (disconnect a) = seen_messages a) \<and>
   seen_messages (snd (connect login_ok a)) = seen_messages a \<and>
   (amp_polling a \<and> authenticated a \<and> \<not> amp_shutdown_requested a \<longrightarrow>
      poll_loop process (Api_error True # rs) a = poll_loop process rs a) \<and>
   (amp_polling a \<and> authenticated a \<and> \<not> amp_shutdown_requested a \<and>
    msg_key e \<in> set (seen_messages a) \<longrightarrow>
      poll_loop process [Api_error True, Updates [e]] a = ([], a))"
proof -
  have 1: "read_messages process tr (a\<lparr>seen_messages := s\<rparr>) = read_messages process tr a"
    by (simp add: read_messages_def)
  have 2: "seen_messages (snd (read_messages process [] a)) = []"
    by (simp add: read_messages_def)
  have 3: "authenticated a \<longrightarrow> seen_messages (disconnect a) = []"
    by (simp add: disconnect_def Let_def)
  have 4: "\<not> authenticated a \<longrightarrow> seen_messages (disconnect a) = seen_messages a"
    by (simp add: disconnect_def Let_def)
  have 5: "seen_messages (snd (connect login_ok a)) = seen_messages a"
    by (simp add: connect_def Let_def)
  have 6: "amp_polling a \<and> authenticated a \<and> \<not> amp_shutdown_requested a \<longrightarrow>
      poll_loop process (Api_error True # rs) a = poll_loop process rs a"
    using poll_loop_relogin [of a process rs] by blast
  have 7: "amp_polling a \<and> authenticated a \<and> \<not> amp_shutdown_requested a \<and>
    msg_key e \<in> set (seen_messages a) \<longrightarrow>
      poll_loop process [Api_error True, Updates [e]] a = ([], a)"
  proof
    assume c: "amp_polling a \<and> authenticated a \<and> \<not> amp_shutdown_requested a \<and>
      msg_key e \<in> set (seen_messages a)"
    then have "poll_loop process [Api_error True, Updates [e]] a =
               poll_loop process [Updates [e]] a"
      using poll_loop_relogin [of a process "[Updates [e]]"] by blast
    also have "\<dots> = ([], a)" using c by (simp add: process_entry_seen_before)
    finally show "poll_loop process [Api_error True, Updates [e]] a = ([], a)" .
  qed
  from 1 2 3 4 5 6 7 show ?thesis by blast
qed

text \<open>
  C7 as stated fails: the cache still holds the key after a successful re-login, the
  entry fed again after the re-login is not emitted, and \<open>connect\<close> does not empty the
  cache.
\<close>

theorem relogin_keeps_cache_counterexample:
  "fst (read_messages echo_line
          [Updates [entry_at ''b''], Api_error True, Updates [entry_at ''b'']]
          (init_AMPGameAdapter ()\<lparr>authenticated := True\<rparr>)) = [''b''] \<and>
   seen_messages (snd (read_messages echo_line
          [Updates [entry_at ''b''], Api_error True]
          (init_AMPGameAdapter ()\<lparr>authenticated := True\<rparr>))) = [msg_key (entry_at ''b'')] \<and>
   seen_messages (snd (connect True (polling_adapter\<lparr>seen_messages := [''k'']\<rparr>))) = [''k'']"
  by (simp add: read_messages_def init_AMPGameAdapter_def process_entry_def Let_def
      entry_at_def echo_line_def strip_def lstrip_def rstrip_def isspace_def msg_key_def
      evict_drop max_seen_cache_def connect_def polling_adapter_def)

theorem cache_cleared_when_reading_starts_not_on_relogin_witness:
  "authenticated polling_adapter \<and> seen_messages (disconnect polling_adapter) = [] \<and>
   \<not> authenticated (init_AMPGameAdapter ()\<lparr>seen_messages := [''k'']\<rparr>) \<and>
   seen_messages (disconnect (init_AMPGameAdapter ()\<lparr>seen_messages := [''k'']\<rparr>)) = [''k''] \<and>
   msg_key (entry_at ''b'') \<in> set (seen_messages
      (polling_adapter\<lparr>seen_messages := [msg_key (entry_at ''b'')]\<rparr>)) \<and>
   poll_loop echo_line [Api_error True, Updates [entry_at ''b'']]
      (polling_adapter\<lparr>seen_messages := [msg_key (entry_at ''b'')]\<rparr>) =
     ([], polling_adapter\<lparr>seen_messages := [msg_key (entry_at ''b'')]\<rparr>)"
proof -
  have c: "amp_polling (polling_adapter\<lparr>seen_messages := [msg_key (entry_at ''b'')]\<rparr>) \<and>
           authenticated (polling_adapter\<lparr>seen_messages := [msg_key (entry_at ''b'')]\<rparr>) \<and>
           \<not> amp_shutdown_requested (polling_adapter\<lparr>seen_messages := [msg_key (entry_at ''b'')]\<rparr>) \<and>
           msg_key (entry_at ''b'') \<in> set (seen_messages
             (polling_adapter\<lparr>seen_messages := [msg_key (entry_at ''b'')]\<rparr>))"
    by (simp add: polling_adapter_def)
  have a1: "authenticated polling_adapter" by (simp add: polling_adapter_def)
  have a2: "\<not> authenticated (init_AMPGameAdapter ()\<lparr>seen_messages := [''k'']\<rparr>)"
    by (simp add: init_AMPGameAdapter_def)
  show ?thesis
    using c a1 a2
      cache_cleared_when_reading_starts_not_on_relogin
        [where process = echo_line and a = polling_adapter and e = "entry_at ''b''"]
      cache_cleared_when_reading_starts_not_on_relogin
        [where process = echo_line and e = "entry_at ''b''"
           and a = "init_AMPGameAdapter ()\<lparr>seen_messages := [''k'']\<rparr>"]
      cache_cleared_when_reading_starts_not_on_relogin
        [where process = echo_line and e = "entry_at ''b''"
           and a = "polling_adapter\<lparr>seen_messages := [msg_key (entry_at ''b'')]\<rparr>"]
    by simp
qed


section \<open>Properties of IP validation\<close>


lemma isdigit_not_isspace: "isdigit c \<Longrightarrow> \<not> isspace c"
  by (auto simp: isdigit_def isspace_def)

lemma isdigit_not_sign: "isdigit c \<Longrightarrow> c \<noteq> CHR ''-'' \<and> c \<noteq> CHR ''+'' \<and> c \<noteq> CHR ''.''"
  by (auto simp: isdigit_def)

lemma strip_no_outer_space:
  assumes "s \<noteq> []" "\<not> isspace (hd s)" "\<not> isspace (last s)"
  shows "strip s = s"
proof -
  from assms(1,2) have l: "lstrip s = s" by (cases s) (simp_all add: lstrip_def)
  from assms(1,3) have "dropWhile isspace (rev s) = rev s"
    by (cases "rev s") (simp_all add: last_rev [symmetric] hd_rev)
  then have "rstrip s = s" by (simp add: rstrip_def)
  with l show ?thesis by (simp add: strip_def)
qed

lemma parse_digits_all_digits:
  "list_all isdigit s \<Longrightarrow>
   parse_digits acc s = Some (foldl (\<lambda>acc c. 10 * acc + digit_val c) acc s)"
  by (induction acc s rule: parse_digits.induct) simp_all

lemma isdigit_not_int_space: "isdigit c \<Longrightarrow> \<not> int_space c"
  by (auto simp: isdigit_def int_space_def)

lemma int_strip_no_outer_space:
  assumes "s \<noteq> []" "\<not> int_space (hd s)" "\<not> int_space (last s)"
  shows "int_strip s = s"
proof -
  from assms(1,2) have l: "dropWhile int_space s = s" by (cases s) simp_all
  from assms(1,3) have "dropWhile int_space (rev s) = rev s"
    by (cases "rev s") (simp_all add: last_rev [symmetric] hd_rev)
  with l show ?thesis by (simp add: int_strip_def)
qed

lemma digit_count_all_digits: "list_all isdigit s \<Longrightarrow> digit_count s = int (length s)"
proof -
  assume "list_all isdigit s"
  then have "filter (\<lambda>c. c \<in> set ''0123456789'') s = s"
    by (auto simp: list_all_iff isdigit_def intro!: filter_True)
  then show ?thesis by (simp add: digit_count_def)
qed

lemma py_int_decimal_segment:
  assumes "decimal_segment s"
  shows "py_int s = (if int (length s) > 4300 then None else Some (decimal_value s))"
proof -
  from assms obtain c cs where s: "s = c # cs" and c: "isdigit c" and cs: "list_all isdigit cs"
    by (cases s) (auto simp: decimal_segment_def)
  have "isdigit (last s)" using assms by (auto simp: decimal_segment_def list_all_iff)
  then have "int_strip s = s"
    using int_strip_no_outer_space [of s] s c by (simp add: isdigit_not_int_space)
  moreover have "digit_count s = int (length s)"
    using assms by (simp add: decimal_segment_def digit_count_all_digits)
  then have "parse_nat s = (if int (length s) > 4300 then None else Some (decimal_value s))"
    using c cs
    by (simp add: s parse_nat_def decimal_value_def parse_digits_all_digits
        int_max_str_digits_def)
  ultimately show ?thesis
    using c isdigit_not_sign [OF c] by (simp add: py_int_def s)
qed

lemma py_int_short_segment:
  "decimal_segment s \<Longrightarrow> length s \<le> 4300 \<Longrightarrow> py_int s = Some (decimal_value s)"
  by (simp add: py_int_decimal_segment)

lemma py_int_decimal_segment_cases:
  "decimal_segment s \<Longrightarrow> py_int s = None \<or> py_int s = Some (decimal_value s)"
  by (simp add: py_int_decimal_segment)

lemma decimal_value_zeros: "decimal_value (replicate n CHR ''0'') = 0"
proof -
  have "foldl (\<lambda>acc c. 10 * acc + digit_val c) 0 (replicate n CHR ''0'') = 0"
    by (induction n) (simp_all add: digit_val_def)
  then show ?thesis by (simp add: decimal_value_def)
qed

lemma decimal_segment_zeros: "0 < n \<Longrightarrow> decimal_segment (replicate n CHR ''0'')"
  by (simp add: decimal_segment_def list_all_iff isdigit_def)

lemma digit_val_nonneg: "isdigit c \<Longrightarrow> 0 \<le> digit_val c"
  by (auto simp: isdigit_def digit_val_def)

lemma foldl_digits_nonneg:
  "list_all isdigit s \<Longrightarrow> 0 \<le> acc \<Longrightarrow>
   0 \<le> foldl (\<lambda>acc c. 10 * acc + digit_val c) acc s"
proof (induction s arbitrary: acc)
  case Nil
  then show ?case by simp
next
  case (Cons c s)
  have "0 \<le> 10 * acc + digit_val c"
    using Cons.prems digit_val_nonneg [of c] by simp
  with Cons show ?case by simp
qed

lemma decimal_value_nonneg: "decimal_segment s \<Longrightarrow> 0 \<le> decimal_value s"
  by (simp add: decimal_segment_def decimal_value_def foldl_digits_nonneg)

lemma split_on_append_sep:
  "sep \<notin> set a \<Longrightarrow> split_on sep (a @ sep # rest) = a # split_on sep rest"
  by (induction a) auto

lemma decimal_segment_no_dot: "decimal_segment s \<Longrightarrow> CHR ''.'' \<notin> set s"
  using isdigit_not_sign by (auto simp: decimal_segment_def list_all_iff)

lemma split_dotted_quad:
  assumes "decimal_segment a" "decimal_segment b" "decimal_segment c" "decimal_segment d"
  shows "split_on CHR ''.'' (a @ ''.'' @ b @ ''.'' @ c @ ''.'' @ d) = [a, b, c, d]"
  using assms
  by (simp add: split_on_append_sep split_on_no_sep decimal_segment_no_dot)

lemma octets_in_range_iff:
  "octets_in_range parts \<longleftrightarrow> (\<forall>p \<in> set parts. \<exists>n. py_int p = Some n \<and> 0 \<le> n \<and> n \<le> 255)"
  by (induction parts) (auto split: option.splits)

lemma all_octets_True_iff:
  "all_octets parts = Some True \<longleftrightarrow>
     (\<forall>p \<in> set parts. \<exists>n. py_int p = Some n \<and> 0 \<le> n \<and> n \<le> 255)"
  by (induction parts) (auto split: option.splits)

lemma OA_valid_iff:
  "OAStatusParser_is_valid_ip ip \<longleftrightarrow>
     length (split_on CHR ''.'' ip) = 4 \<and>
     (\<forall>p \<in> set (split_on CHR ''.'' ip). \<exists>n. py_int p = Some n \<and> 0 \<le> n \<and> n \<le> 255)"
  by (cases ip) (auto simp: OAStatusParser_is_valid_ip_def Let_def octets_in_range_iff)

lemma AMP_valid_iff:
  "AMPStatusParser_is_valid_ip ip \<longleftrightarrow>
     length (split_on CHR ''.'' ip) = 4 \<and>
     (\<forall>p \<in> set (split_on CHR ''.'' ip). \<exists>n. py_int p = Some n \<and> 0 \<le> n \<and> n \<le> 255)"
proof -
  have "(case all_octets parts of None \<Rightarrow> False | Some b \<Rightarrow> b) \<longleftrightarrow> all_octets parts = Some True"
    for parts by (auto split: option.splits)
  then show ?thesis
    by (simp add: AMPStatusParser_is_valid_ip_def Let_def all_octets_True_iff)
qed

text \<open>
  C9 as stated fails for a segment that denotes a number from 0 to 255 with more than
  4300 digits: the segment of 4301 zeros denotes 0, and both validators reject the
  address made of it and three segments \<^verbatim>\<open>0\<close>, because \<^verbatim>\<open>int\<close> refuses the conversion.
\<close>

theorem ip_validation_long_zero_segment_counterexample:
  "decimal_segment (replicate 4301 CHR ''0'') \<and>
   decimal_value (replicate 4301 CHR ''0'') = 0 \<and>
   decimal_segment ''0'' \<and> decimal_value ''0'' = 0 \<and>
   \<not> OAStatusParser_is_valid_ip (replicate 4301 CHR ''0'' @ ''.'' @ ''0'' @ ''.'' @ ''0'' @ ''.'' @ ''0'') \<and>
   \<not> AMPStatusParser_is_valid_ip (replicate 4301 CHR ''0'' @ ''.'' @ ''0'' @ ''.'' @ ''0'' @ ''.'' @ ''0'')"
proof -
  let ?z = "replicate 4301 CHR ''0''"
  have z: "decimal_segment ?z" by (rule decimal_segment_zeros) simp
  have o: "decimal_segment ''0''" using decimal_segment_zeros [of 1] by simp
  have v: "decimal_value ''0'' = 0" using decimal_value_zeros [of 1] by simp
  have sp: "split_on CHR ''.'' (?z @ ''.'' @ ''0'' @ ''.'' @ ''0'' @ ''.'' @ ''0'') =
            [?z, ''0'', ''0'', ''0'']"
    using split_dotted_quad [OF z o o o] .
  have n: "py_int ?z = None" using z by (simp add: py_int_decimal_segment)
  show ?thesis
    unfolding OA_valid_iff AMP_valid_iff sp using z o v n
    by (simp add: decimal_value_zeros)
qed

text \<open>
  C9 (as the code has it).  Both validators accept every string made of four decimal
  segments joined by dots, each segment denoting a number from 0 to 255 and having at
  most 4300 digits.  They reject every string one of whose dot-separated segments has an
  integer value above 255 (a value as \<^verbatim>\<open>int\<close> reads it, or a decimal segment of any length
  denoting such a number), and every string whose number of dot-separated segments is
  not four.
\<close>

theorem ip_validation_accepts_octets_rejects_others:
  "(decimal_segment a \<and> length a \<le> 4300 \<and> decimal_value a \<le> 255 \<and>
    decimal_segment b \<and> length b \<le> 4300 \<and> decimal_value b \<le> 255 \<and>
    decimal_segment c \<and> length c \<le> 4300 \<and> decimal_value c \<le> 255 \<and>
    decimal_segment d \<and> length d \<le> 4300 \<and> decimal_value d \<le> 255 \<longrightarrow>
      OAStatusParser_is_valid_ip (a @ ''.'' @ b @ ''.'' @ c @ ''.'' @ d) \<and>
      AMPStatusParser_is_valid_ip (a @ ''.'' @ b @ ''.'' @ c @ ''.'' @ d)) \<and>
   ((\<exists>p \<in> set (split_on CHR ''.'' ip). \<exists>n. py_int p = Some n \<and> n > 255) \<longrightarrow>
      \<not> OAStatusParser_is_valid_ip ip \<and> \<not> AMPStatusParser_is_valid_ip ip) \<and>
   ((\<exists>p \<in> set (split_on CHR ''.'' ip). decimal_segment p \<and> decimal_value p > 255) \<longrightarrow>
      \<not> OAStatusParser_is_valid_ip ip \<and> \<not> AMPStatusParser_is_valid_ip ip) \<and>
   (length (split_on CHR ''.'' ip) \<noteq> 4 \<longrightarrow>
      \<not> OAStatusParser_is_valid_ip ip \<and> \<not> AMPStatusParser_is_valid_ip ip)"
proof -
  have 1: "decimal_segment a \<and> length a \<le> 4300 \<and> decimal_value a \<le> 255 \<and>
    decimal_segment b \<and> length b \<le> 4300 \<and> decimal_value b \<le> 255 \<and>
    decimal_segment c \<and> length c \<le> 4300 \<and> decimal_value c \<le> 255 \<and>
    decimal_segment d \<and> length d \<le> 4300 \<and> decimal_value d \<le> 255 \<longrightarrow>
      OAStatusParser_is_valid_ip (a @ ''.'' @ b @ ''.'' @ c @ ''.'' @ d) \<and>
      AMPStatusParser_is_valid_ip (a @ ''.'' @ b @ ''.'' @ c @ ''.'' @ d)"
  proof
    assume h: "decimal_segment a \<and> length a \<le> 4300 \<and> decimal_value a \<le> 255 \<and>
      decimal_segment b \<and> length b \<le> 4300 \<and> decimal_value b \<le> 255 \<and>
      decimal_segment c \<and> length c \<le> 4300 \<and> decimal_value c \<le> 255 \<and>
      decimal_segment d \<and> length d \<le> 4300 \<and> decimal_value d \<le> 255"
    then have sp: "split_on CHR ''.'' (a @ ''.'' @ b @ ''.'' @ c @ ''.'' @ d) = [a, b, c, d]"
      using split_dotted_quad [of a b c d] by blast
    show "OAStatusParser_is_valid_ip (a @ ''.'' @ b @ ''.'' @ c @ ''.'' @ d) \<and>
          AMPStatusParser_is_valid_ip (a @ ''.'' @ b @ ''.'' @ c @ ''.'' @ d)"
      unfolding OA_valid_iff AMP_valid_iff sp using h
      by (simp add: py_int_short_segment decimal_value_nonneg)
  qed
  have 2: "(\<exists>p \<in> set (split_on CHR ''.'' ip). \<exists>n. py_int p = Some n \<and> n > 255) \<longrightarrow>
      \<not> OAStatusParser_is_valid_ip ip \<and> \<not> AMPStatusParser_is_valid_ip ip"
    unfolding OA_valid_iff AMP_valid_iff by fastforce
  have 3: "(\<exists>p \<in> set (split_on CHR ''.'' ip). decimal_segment p \<and> decimal_value p > 255) \<longrightarrow>
      \<not> OAStatusParser_is_valid_ip ip \<and> \<not> AMPStatusParser_is_valid_ip ip"
    unfolding OA_valid_iff AMP_valid_iff using py_int_decimal_segment_cases by fastforce
  have 4: "length (split_on CHR ''.'' ip) \<noteq> 4 \<longrightarrow>
      \<not> OAStatusParser_is_valid_ip ip \<and> \<not> AMPStatusParser_is_valid_ip ip"
    unfolding OA_valid_iff AMP_valid_iff by simp
  from 1 2 3 4 show ?thesis by blast
qed

lemma py_int_256: "py_int ''256'' = Some 256"
  by code_simp

theorem ip_validation_accepts_octets_rejects_others_witness:
  "OAStatusParser_is_valid_ip (''192'' @ ''.'' @ ''168'' @ ''.'' @ ''1'' @ ''.'' @ ''255'') \<and>
   AMPStatusParser_is_valid_ip (''192'' @ ''.'' @ ''168'' @ ''.'' @ ''1'' @ ''.'' @ ''255'') \<and>
   ''256'' \<in> set (split_on CHR ''.'' ''256.1.1.1'') \<and> py_int ''256'' = Some 256 \<and>
   decimal_segment ''256'' \<and> decimal_value ''256'' > 255 \<and>
   \<not> OAStatusParser_is_valid_ip ''256.1.1.1'' \<and> \<not> AMPStatusParser_is_valid_ip ''256.1.1.1'' \<and>
   length (split_on CHR ''.'' ''192.168.1'') \<noteq> 4 \<and>
   \<not> OAStatusParser_is_valid_ip ''192.168.1'' \<and> \<not> AMPStatusParser_is_valid_ip ''192.168.1''"
proof -
  have seg: "decimal_segment ''192'' \<and> length ''192'' \<le> 4300 \<and> decimal_value ''192'' \<le> 255 \<and>
             decimal_segment ''168'' \<and> length ''168'' \<le> 4300 \<and> decimal_value ''168'' \<le> 255 \<and>
             decimal_segment ''1'' \<and> length ''1'' \<le> 4300 \<and> decimal_value ''1'' \<le> 255 \<and>
             decimal_segment ''255'' \<and> length ''255'' \<le> 4300 \<and> decimal_value ''255'' \<le> 255"
    by (simp add: decimal_segment_def decimal_value_def isdigit_def digit_val_def)
  have big: "''256'' \<in> set (split_on CHR ''.'' ''256.1.1.1'') \<and> py_int ''256'' = Some 256 \<and>
             decimal_segment ''256'' \<and> decimal_value ''256'' > 255"
    using py_int_256
    by (simp add: decimal_segment_def decimal_value_def isdigit_def digit_val_def)
  have short: "length (split_on CHR ''.'' ''192.168.1'') \<noteq> 4" by simp
  show ?thesis
    using seg big short
      ip_validation_accepts_octets_rejects_others
        [where a = "''192''" and b = "''168''" and c = "''1''" and d = "''255''"
           and ip = "''256.1.1.1''"]
      ip_validation_accepts_octets_rejects_others
        [where a = "''192''" and b = "''168''" and c = "''1''" and d = "''255''"
           and ip = "''192.168.1''"]
    by blast
qed


section \<open>Properties of the line-based message processor\<close>


lemma status_complete_message_type [simp]:
  "message_type (status_complete_message cs) = STATUS_UPDATE"
  by (simp add: status_complete_message_def)

lemma complete_status_parsing_frame [simp]:
  "recent_fraglimit_hit (snd (complete_status_parsing p)) = recent_fraglimit_hit p"
  "message_type (fst (complete_status_parsing p)) = STATUS_UPDATE"
  by (simp_all add: complete_status_parsing_def Let_def)

lemma complete_status_parsing_and_reprocess_frame [simp]:
  "recent_fraglimit_hit (snd (complete_status_parsing_and_reprocess raw p)) = recent_fraglimit_hit p"
  "message_type (fst (complete_status_parsing_and_reprocess raw p)) = STATUS_UPDATE \<or>
   message_type (fst (complete_status_parsing_and_reprocess raw p)) = UNKNOWN"
  by (simp_all add: complete_status_parsing_and_reprocess_def Let_def)

lemma handle_status_line_frame:
  "recent_fraglimit_hit (snd (handle_status_line raw p)) = recent_fraglimit_hit p"
  "message_type (fst (handle_status_line raw p)) = STATUS_UPDATE \<or>
   message_type (fst (handle_status_line raw p)) = UNKNOWN"
  using complete_status_parsing_and_reprocess_frame(2)
  by (auto simp: handle_status_line_def Let_def split: option.splits)

lemma process_message_dispatch:
  "process_message l p =
     (case branch_of l of
        Blank \<Rightarrow> (if is_parsing (status_parser p) then complete_status_parsing p
                  else (\<lparr>message_type = UNKNOWN, raw_message = [], data = []\<rparr>, p))
      | Connect \<Rightarrow> handle_client_connecting (strip l) (the (match_client_connect (strip l))) p
      | Disconnect \<Rightarrow>
          handle_client_disconnect (strip l) (the (match_client_disconnect (strip l))) p
      | Init \<Rightarrow> handle_game_initialization (strip l) p
      | End \<Rightarrow> handle_match_end (strip l) (the (match_game_end (strip l))) p
      | Warmup \<Rightarrow> handle_warmup_state (strip l) (the (match_warmup_start (strip l))) p
      | Shutdown \<Rightarrow> handle_shutdown_game (strip l) (the (match_server_shutdown (strip l))) p
      | Status \<Rightarrow> status_branch (strip l) p)"
  by (simp add: process_message_def branch_of_def status_branch_def Let_def
      split: option.splits)

lemma status_branch_frame:
  "recent_fraglimit_hit (snd (status_branch raw p)) = recent_fraglimit_hit p"
  "message_type (fst (status_branch raw p)) = STATUS_UPDATE \<or>
   message_type (fst (status_branch raw p)) = UNKNOWN"
  using handle_status_line_frame(2)
  by (auto simp: status_branch_def handle_status_line_frame(1))

lemma process_message_type:
  "message_type (fst (process_message l p)) =
     (case branch_of l of
        Blank \<Rightarrow> message_type (fst (process_message l p))
      | Connect \<Rightarrow> CLIENT_CONNECT | Disconnect \<Rightarrow> CLIENT_DISCONNECT
      | Init \<Rightarrow> GAME_INITIALIZATION | End \<Rightarrow> GAME_END | Warmup \<Rightarrow> WARMUP_START
      | Shutdown \<Rightarrow> SERVER_SHUTDOWN
      | Status \<Rightarrow> message_type (fst (process_message l p)))"
  by (cases "branch_of l")
     (simp_all add: process_message_dispatch handle_client_connecting_def
        handle_client_disconnect_def handle_game_initialization_def handle_match_end_def
        handle_warmup_state_def handle_shutdown_game_def Let_def)

lemma process_message_other_type:
  "branch_of l = Blank \<or> branch_of l = Status \<Longrightarrow>
   message_type (fst (process_message l p)) = STATUS_UPDATE \<or>
   message_type (fst (process_message l p)) = UNKNOWN"
  using status_branch_frame(2) [of "strip l" p]
  by (auto simp: process_message_dispatch)

lemma process_message_flag:
  "recent_fraglimit_hit (snd (process_message l p)) =
     (case branch_of l of
        End \<Rightarrow> True | Warmup \<Rightarrow> False | Shutdown \<Rightarrow> False | _ \<Rightarrow> recent_fraglimit_hit p)"
  by (cases "branch_of l")
     (simp_all add: process_message_dispatch handle_client_connecting_def
        handle_client_disconnect_def handle_game_initialization_def handle_match_end_def
        handle_warmup_state_def handle_shutdown_game_def Let_def status_branch_frame(1))

lemma line_type_branch:
  "(line_type l = GAME_END \<longleftrightarrow> branch_of l = End) \<and>
   (line_type l = WARMUP_START \<longleftrightarrow> branch_of l = Warmup) \<and>
   (line_type l = SERVER_SHUTDOWN \<longleftrightarrow> branch_of l = Shutdown)"
proof (cases "branch_of l = Blank \<or> branch_of l = Status")
  case True
  then show ?thesis
    using process_message_other_type [OF True, of "init_OAMessageProcessor False"]
    by (auto simp: line_type_def)
next
  case False
  then show ?thesis
    using process_message_type [of l "init_OAMessageProcessor False"]
    by (cases "branch_of l") (auto simp: line_type_def)
qed

lemma process_message_flag_line_type:
  "recent_fraglimit_hit (snd (process_message l p)) =
     (if line_type l = GAME_END then True
      else if line_type l = WARMUP_START \<or> line_type l = SERVER_SHUTDOWN then False
      else recent_fraglimit_hit p)"
  using line_type_branch [of l]
  by (cases "branch_of l") (simp_all add: process_message_flag)

lemma process_messages_Cons_snd:
  "snd (process_messages (x # xs) p) = snd (process_messages xs (snd (process_message x p)))"
  by (simp split: prod.splits)

lemma process_messages_append:
  "snd (process_messages (h @ k) p) = snd (process_messages k (snd (process_messages h p)))"
proof (induction h arbitrary: p)
  case Nil
  show ?case by simp
next
  case (Cons x xs)
  show ?case
    using Cons.IH [of "snd (process_message x p)"]
    by (simp add: process_messages_Cons_snd del: process_messages.simps)
qed

lemma process_messages_snoc:
  "snd (process_messages (h @ [l]) p) = snd (process_message l (snd (process_messages h p)))"
  by (simp add: process_messages_append split: prod.splits)

lemma flag_after_history:
  "recent_fraglimit_hit (snd (process_messages history (init_OAMessageProcessor cb))) =
   game_end_since_reset history"
proof (induction history rule: rev_induct)
  case Nil
  show ?case
    by (simp add: init_OAMessageProcessor_def game_end_since_reset_def since_last_reset_def)
next
  case (snoc l history)
  show ?case
    using snoc.IH
    by (simp add: process_messages_snoc process_message_flag_line_type
        game_end_since_reset_def since_last_reset_def)
qed

lemma flag_stays_clear:
  "\<not> recent_fraglimit_hit p \<Longrightarrow> \<forall>x \<in> set between. line_type x \<noteq> GAME_END \<Longrightarrow>
   \<not> recent_fraglimit_hit (snd (process_messages between p))"
proof (induction between arbitrary: p)
  case Nil
  then show ?case by simp
next
  case (Cons x xs)
  have "\<not> recent_fraglimit_hit (snd (process_message x p))"
    using Cons.prems by (simp add: process_message_flag_line_type)
  from Cons.IH [OF this] Cons.prems(2) show ?case by (auto split: prod.splits)
qed

lemma shutdown_message:
  assumes "line_type l = SERVER_SHUTDOWN"
  shows "message_type (fst (process_message l p)) = SERVER_SHUTDOWN \<and>
         map_of (data (fst (process_message l p))) ''event'' =
           Some (PyStr (if recent_fraglimit_hit p then ''match_end'' else ''warmup_end'')) \<and>
         map_of (data (fst (process_message l p))) ''is_match_end'' =
           Some (PyBool (recent_fraglimit_hit p))"
proof -
  from assms have b: "branch_of l = Shutdown" by (simp add: line_type_branch)
  then show ?thesis
    by (simp add: process_message_dispatch handle_shutdown_game_def Let_def)
qed

text \<open>
  C5.  A shutdown line is classified as a match end (event \<open>match_end\<close>, \<open>is_match_end\<close>
  true) if and only if a game-end line has been processed since the last warmup-start or
  shutdown line, counted from a fresh processor; otherwise it is classified as a warmup
  end.  After a warmup-start line and after a shutdown line the flag
  \<open>recent_fraglimit_hit\<close> is clear, in every state.  Of two shutdown lines with no game-end
  line between them the second is classified as a warmup end, so they are never both
  match ends.
\<close>

theorem shutdown_is_match_end_iff_game_end_pending:
  "(line_type l = SERVER_SHUTDOWN \<longrightarrow>
      (case process_message l (snd (process_messages history (init_OAMessageProcessor cb))) of
         (m, p') \<Rightarrow>
           message_type m = SERVER_SHUTDOWN \<and>
           (map_of (data m) ''event'' = Some (PyStr ''match_end'') \<longleftrightarrow>
              game_end_since_reset history) \<and>
           (map_of (data m) ''event'' = Some (PyStr ''warmup_end'') \<longleftrightarrow>
              \<not> game_end_since_reset history) \<and>
           map_of (data m) ''is_match_end'' = Some (PyBool (game_end_since_reset history)))) \<and>
   (line_type l = WARMUP_START \<or> line_type l = SERVER_SHUTDOWN \<longrightarrow>
      \<not> recent_fraglimit_hit (snd (process_message l p))) \<and>
   (line_type l = SERVER_SHUTDOWN \<and> line_type l' = SERVER_SHUTDOWN \<and>
    (\<forall>x \<in> set between. line_type x \<noteq> GAME_END) \<longrightarrow>
      map_of (data (fst (process_message l'
                (snd (process_messages between (snd (process_message l p)))))))
        ''event'' = Some (PyStr ''warmup_end''))"
proof -
  let ?p = "snd (process_messages history (init_OAMessageProcessor cb))"
  have 1: "line_type l = SERVER_SHUTDOWN \<longrightarrow>
      (case process_message l ?p of
         (m, p') \<Rightarrow>
           message_type m = SERVER_SHUTDOWN \<and>
           (map_of (data m) ''event'' = Some (PyStr ''match_end'') \<longleftrightarrow>
              game_end_since_reset history) \<and>
           (map_of (data m) ''event'' = Some (PyStr ''warmup_end'') \<longleftrightarrow>
              \<not> game_end_since_reset history) \<and>
           map_of (data m) ''is_match_end'' = Some (PyBool (game_end_since_reset history)))"
  proof
    assume s: "line_type l = SERVER_SHUTDOWN"
    obtain m p' where mp: "process_message l ?p = (m, p')" by force
    have f: "recent_fraglimit_hit ?p = game_end_since_reset history"
      by (rule flag_after_history)
    show "case process_message l ?p of
         (m, p') \<Rightarrow>
           message_type m = SERVER_SHUTDOWN \<and>
           (map_of (data m) ''event'' = Some (PyStr ''match_end'') \<longleftrightarrow>
              game_end_since_reset history) \<and>
           (map_of (data m) ''event'' = Some (PyStr ''warmup_end'') \<longleftrightarrow>
              \<not> game_end_since_reset history) \<and>
           map_of (data m) ''is_match_end'' = Some (PyBool (game_end_since_reset history))"
      using shutdown_message [OF s, of ?p] mp f by auto
  qed
  have 2: "line_type l = WARMUP_START \<or> line_type l = SERVER_SHUTDOWN \<longrightarrow>
      \<not> recent_fraglimit_hit (snd (process_message l p))"
    by (auto simp: process_message_flag_line_type)
  have 3: "line_type l = SERVER_SHUTDOWN \<and> line_type l' = SERVER_SHUTDOWN \<and>
    (\<forall>x \<in> set between. line_type x \<noteq> GAME_END) \<longrightarrow>
      map_of (data (fst (process_message l'
                (snd (process_messages between (snd (process_message l p)))))))
        ''event'' = Some (PyStr ''warmup_end'')"
  proof
    assume h: "line_type l = SERVER_SHUTDOWN \<and> line_type l' = SERVER_SHUTDOWN \<and>
      (\<forall>x \<in> set between. line_type x \<noteq> GAME_END)"
    then have "\<not> recent_fraglimit_hit (snd (process_message l p))"
      by (simp add: process_message_flag_line_type)
    then have "\<not> recent_fraglimit_hit (snd (process_messages between (snd (process_message l p))))"
      using h by (simp add: flag_stays_clear)
    then show "map_of (data (fst (process_message l'
                (snd (process_messages between (snd (process_message l p)))))))
        ''event'' = Some (PyStr ''warmup_end'')"
      using shutdown_message [of l' "snd (process_messages between (snd (process_message l p)))"] h
      by simp
  qed
  from 1 2 3 show ?thesis by blast
qed



lemma same_client_id_list_ex:
  "list_ex (\<lambda>c. same_client_id c d) acc \<longleftrightarrow>
   map_of d ''client_id'' \<in> set (map (\<lambda>c. map_of c ''client_id'') acc)"
  by (induction acc) (auto simp: same_client_id_def)

lemma collect_clients_distinct:
  "distinct (map (\<lambda>c. map_of c ''client_id'') acc) \<Longrightarrow>
   distinct (map (\<lambda>c. map_of c ''client_id'') (collect_clients ls acc))"
proof (induction ls arbitrary: acc)
  case Nil
  then show ?case by simp
next
  case (Cons l ls)
  show ?case
  proof (cases "parse_client_line l")
    case None
    then show ?thesis using Cons by simp
  next
    case (Some d)
    show ?thesis
    proof (cases "list_ex (\<lambda>c. same_client_id c d) acc")
      case True
      then show ?thesis using Some Cons by simp
    next
      case False
      then have "distinct (map (\<lambda>c. map_of c ''client_id'') (acc @ [d]))"
        using Cons.prems by (simp add: same_client_id_list_ex)
      from Cons.IH [OF this] show ?thesis using Some False by simp
    qed
  qed
qed

lemma collect_clients_from_rows:
  "c \<in> set (collect_clients ls acc) \<Longrightarrow>
   c \<in> set acc \<or> (\<exists>row \<in> set ls. parse_client_line row = Some c)"
proof (induction ls arbitrary: acc)
  case Nil
  then show ?case by simp
next
  case (Cons l ls)
  show ?case
  proof (cases "parse_client_line l")
    case None
    then show ?thesis using Cons by auto
  next
    case (Some d)
    show ?thesis
    proof (cases "list_ex (\<lambda>c. same_client_id c d) acc")
      case True
      then show ?thesis using Some Cons by auto
    next
      case False
      then have "c \<in> set (collect_clients ls (acc @ [d]))" using Cons.prems Some by simp
      from Cons.IH [OF this] show ?thesis using Some by auto
    qed
  qed
qed

lemma parse_client_line_fields:
  assumes "parse_client_line row = Some c"
  shows "map_of c ''name'' = Some (PyStr (split row ! 3)) \<and>
         map_of c ''ip'' = Some (PyStr (address_host (split row ! 5))) \<and>
         (\<exists>n. py_int (split row ! 0) = Some n \<and> map_of c ''client_id'' = Some (PyInt n)) \<and>
         6 \<le> length (split row)"
proof -
  have bot: "address_host ''bot'' = ''bot''" by (simp add: address_host_def)
  show ?thesis
    using assms bot
    by (auto simp: parse_client_line_def Let_def split: if_splits option.splits prod.splits)
qed


lemma status_complete_message_data:
  "map_of (data (status_complete_message cs)) ''status_complete'' = Some (PyBool True) \<and>
   map_of (data (status_complete_message cs)) ''clients'' = None \<and>
   map_of (data (status_complete_message cs)) ''client_data'' = Some (PyList (map PyDict cs)) \<and>
   raw_message (status_complete_message cs) = ''STATUS_COMPLETE''"
  by (simp add: status_complete_message_def)

lemma reset_not_parsing [simp]: "\<not> is_parsing (snd (complete ctx))"
  by (simp add: complete_def reset_def is_parsing_def)

lemma handle_status_line_complete:
  assumes "map_of (data (fst (handle_status_line raw p))) ''status_complete'' = Some (PyBool True)"
  shows "fst (handle_status_line raw p) =
           status_complete_message
             (extract_client_data_from_status (p\<lparr>status_parser := add_line raw (status_parser p)\<rparr>)) \<and>
         \<not> is_parsing (status_parser (snd (handle_status_line raw p)))"
  using assms
  by (auto simp: handle_status_line_def Let_def complete_status_parsing_and_reprocess_def
      split: if_splits option.splits)

lemma status_branch_complete:
  assumes "map_of (data (fst (status_branch raw p))) ''status_complete'' = Some (PyBool True)"
  shows "\<exists>q. fst (status_branch raw p) =
               status_complete_message (extract_client_data_from_status q) \<and>
             set (lines (status_parser q)) \<subseteq> set (lines (status_parser p) @ [raw]) \<and>
             \<not> is_parsing (status_parser (snd (status_branch raw p)))"
proof (cases "is_status_header raw")
  case True
  let ?p0 = "p\<lparr>status_parser := start_parsing (status_parser p), status_client_count := 0\<rparr>"
  have pm: "status_branch raw p = handle_status_line raw ?p0"
    using True by (simp add: status_branch_def)
  from handle_status_line_complete [of raw ?p0] assms pm
  show ?thesis
    by (intro exI [of _ "?p0\<lparr>status_parser := add_line raw (status_parser ?p0)\<rparr>"])
       (simp add: add_line_def start_parsing_def reset_def)
next
  case False
  show ?thesis
  proof (cases "is_parsing (status_parser p)")
    case True
    have pm: "status_branch raw p = handle_status_line raw p"
      using True False by (simp add: status_branch_def)
    from handle_status_line_complete [of raw p] assms pm
    show ?thesis
      by (intro exI [of _ "p\<lparr>status_parser := add_line raw (status_parser p)\<rparr>"])
         (simp add: add_line_def)
  next
    case nop: False
    then show ?thesis using assms False by (simp add: status_branch_def)
  qed
qed

lemma process_message_complete:
  assumes "map_of (data (fst (process_message l p))) ''status_complete'' = Some (PyBool True)"
  shows "\<exists>q. fst (process_message l p) =
               status_complete_message (extract_client_data_from_status q) \<and>
             set (lines (status_parser q)) \<subseteq> set (lines (status_parser p) @ [strip l]) \<and>
             \<not> is_parsing (status_parser (snd (process_message l p)))"
proof (cases "branch_of l")
  case Blank
  show ?thesis
  proof (cases "is_parsing (status_parser p)")
    case True
    then have "process_message l p = complete_status_parsing p"
      using Blank by (simp add: process_message_dispatch)
    then show ?thesis
      by (intro exI [of _ p]) (auto simp: complete_status_parsing_def Let_def)
  next
    case False
    then show ?thesis using assms Blank by (simp add: process_message_dispatch)
  qed
next
  case Status
  then have "process_message l p = status_branch (strip l) p"
    by (simp add: process_message_dispatch)
  with status_branch_complete [of "strip l" p] assms show ?thesis by simp
next
  case Connect
  with assms show ?thesis
    by (simp add: process_message_dispatch handle_client_connecting_def)
next
  case Disconnect
  with assms show ?thesis
    by (simp add: process_message_dispatch handle_client_disconnect_def)
next
  case Init
  with assms show ?thesis
    by (simp add: process_message_dispatch handle_game_initialization_def)
next
  case End
  with assms show ?thesis
    by (simp add: process_message_dispatch handle_match_end_def)
next
  case Warmup
  with assms show ?thesis
    by (simp add: process_message_dispatch handle_warmup_state_def Let_def)
next
  case Shutdown
  with assms show ?thesis
    by (simp add: process_message_dispatch handle_shutdown_game_def Let_def)
qed

lemma in_map_filter: "c \<in> set (List.map_filter f rows) \<longleftrightarrow> (\<exists>row \<in> set rows. f row = Some c)"
  by (induction rows) (auto simp: List.map_filter_simps split: option.splits)

lemma extract_properties:
  assumes sub: "set (lines (status_parser q)) \<subseteq> set rows"
  shows "distinct (map (\<lambda>c. map_of c ''client_id'') (extract_client_data_from_status q)) \<and>
         (\<forall>c \<in> set (extract_client_data_from_status q).
            \<exists>row \<in> set rows. parse_client_line row = Some c) \<and>
         length (extract_client_data_from_status q) \<le> card (parsed_ids rows)"
proof -
  let ?cs = "extract_client_data_from_status q"
  let ?id = "\<lambda>c. map_of c ''client_id''"
  have d: "distinct (map ?id ?cs)"
    unfolding extract_client_data_from_status_def by (rule collect_clients_distinct) simp
  have m: "\<exists>row \<in> set rows. parse_client_line row = Some c" if "c \<in> set ?cs" for c
  proof -
    from that have "\<exists>row \<in> set (drop 3 (lines (status_parser q))). parse_client_line row = Some c"
      unfolding extract_client_data_from_status_def
      using collect_clients_from_rows [of c "drop 3 (lines (status_parser q))" "[]"] by simp
    then obtain row where "row \<in> set (drop 3 (lines (status_parser q)))"
      "parse_client_line row = Some c" by blast
    with sub show ?thesis using in_set_dropD by fastforce
  qed
  have "set (map ?id ?cs) \<subseteq> parsed_ids rows"
    using m by (auto simp: parsed_ids_def in_map_filter)
  then have "card (set (map ?id ?cs)) \<le> card (parsed_ids rows)"
    by (intro card_mono) (simp_all add: parsed_ids_def)
  moreover have "card (set (map ?id ?cs)) = length ?cs"
    using d distinct_card [of "map ?id ?cs"] by simp
  ultimately show ?thesis using d m by auto
qed

lemma OA_status_complete_properties:
  "map_of (data (fst (process_message l p))) ''status_complete'' = Some (PyBool True) \<longrightarrow>
     message_type (fst (process_message l p)) = STATUS_UPDATE \<and>
     raw_message (fst (process_message l p)) = ''STATUS_COMPLETE'' \<and>
     map_of (data (fst (process_message l p))) ''clients'' = None \<and>
     \<not> is_parsing (status_parser (snd (process_message l p))) \<and>
     (\<exists>cs. map_of (data (fst (process_message l p))) ''client_data'' =
             Some (PyList (map PyDict cs)) \<and>
           distinct (map (\<lambda>c. map_of c ''client_id'') cs) \<and>
           (\<forall>c \<in> set cs.
              \<exists>row \<in> set (lines (status_parser p) @ [strip l]).
                parse_client_line row = Some c \<and>
                map_of c ''name'' = Some (PyStr (split row ! 3)) \<and>
                map_of c ''ip'' = Some (PyStr (address_host (split row ! 5)))) \<and>
           length cs \<le> card (parsed_ids (lines (status_parser p) @ [strip l])))"
proof
  assume a: "map_of (data (fst (process_message l p))) ''status_complete'' = Some (PyBool True)"
  from process_message_complete [OF a] obtain q where
    q: "fst (process_message l p) = status_complete_message (extract_client_data_from_status q)"
       "set (lines (status_parser q)) \<subseteq> set (lines (status_parser p) @ [strip l])"
       "\<not> is_parsing (status_parser (snd (process_message l p)))"
    by blast
  let ?cs = "extract_client_data_from_status q"
  note e = extract_properties [OF q(2)]
  have f: "\<forall>c \<in> set ?cs.
              \<exists>row \<in> set (lines (status_parser p) @ [strip l]).
                parse_client_line row = Some c \<and>
                map_of c ''name'' = Some (PyStr (split row ! 3)) \<and>
                map_of c ''ip'' = Some (PyStr (address_host (split row ! 5)))"
    using e parse_client_line_fields by blast
  have "map_of (data (fst (process_message l p))) ''client_data'' = Some (PyList (map PyDict ?cs)) \<and>
        distinct (map (\<lambda>c. map_of c ''client_id'') ?cs) \<and>
        (\<forall>c \<in> set ?cs.
              \<exists>row \<in> set (lines (status_parser p) @ [strip l]).
                parse_client_line row = Some c \<and>
                map_of c ''name'' = Some (PyStr (split row ! 3)) \<and>
                map_of c ''ip'' = Some (PyStr (address_host (split row ! 5)))) \<and>
        length ?cs \<le> card (parsed_ids (lines (status_parser p) @ [strip l]))"
    using e f by (simp add: q(1) status_complete_message_data)
  then have ex: "\<exists>cs. map_of (data (fst (process_message l p))) ''client_data'' =
             Some (PyList (map PyDict cs)) \<and>
           distinct (map (\<lambda>c. map_of c ''client_id'') cs) \<and>
           (\<forall>c \<in> set cs.
              \<exists>row \<in> set (lines (status_parser p) @ [strip l]).
                parse_client_line row = Some c \<and>
                map_of c ''name'' = Some (PyStr (split row ! 3)) \<and>
                map_of c ''ip'' = Some (PyStr (address_host (split row ! 5)))) \<and>
           length cs \<le> card (parsed_ids (lines (status_parser p) @ [strip l]))"
    by (rule exI)
  show "message_type (fst (process_message l p)) = STATUS_UPDATE \<and>
     raw_message (fst (process_message l p)) = ''STATUS_COMPLETE'' \<and>
     map_of (data (fst (process_message l p))) ''clients'' = None \<and>
     \<not> is_parsing (status_parser (snd (process_message l p))) \<and>
     (\<exists>cs. map_of (data (fst (process_message l p))) ''client_data'' =
             Some (PyList (map PyDict cs)) \<and>
           distinct (map (\<lambda>c. map_of c ''client_id'') cs) \<and>
           (\<forall>c \<in> set cs.
              \<exists>row \<in> set (lines (status_parser p) @ [strip l]).
                parse_client_line row = Some c \<and>
                map_of c ''name'' = Some (PyStr (split row ! 3)) \<and>
                map_of c ''ip'' = Some (PyStr (address_host (split row ! 5)))) \<and>
           length cs \<le> card (parsed_ids (lines (status_parser p) @ [strip l])))"
    using ex q(3) by (simp add: q(1) status_complete_message_data)
qed

subsection \<open>Blocks of the poll-based processor\<close>

lemma AMP_parse_empty [simp]: "AMPStatusParser_parse_client_line [] = None"
  by (simp add: AMPStatusParser_parse_client_line_def)

lemma is_column_header_empty [simp]: "\<not> is_column_header []"
  by (simp add: is_column_header_def)

lemma collected_rows_Nil [simp]: "collected_rows [] = []"
  by (simp add: collected_rows_def List.map_filter_simps)

lemma collected_rows_Cons:
  "collected_rows (r # rows) =
     (if is_column_header (strip r) then collected_rows rows
      else (case AMPStatusParser_parse_client_line (strip r) of
              None \<Rightarrow> collected_rows rows
            | Some c \<Rightarrow> c # collected_rows rows))"
  by (simp add: collected_rows_def List.map_filter_simps split: option.splits)

lemma collected_rows_parsed:
  "c \<in> set (collected_rows rows) \<Longrightarrow>
   \<exists>r \<in> set rows. AMPStatusParser_parse_client_line (strip r) = Some c"
  by (auto simp: collected_rows_def in_map_filter)

lemma AMP_row_step:
  assumes "in_player_section p" "\<not> AMPStatusParser_is_status_header (strip r)"
    "\<not> is_section_end (strip r)"
  shows "snd (AMPMessageProcessor_process_message r p) =
           p\<lparr>collected_clients := collected_clients p @ collected_rows [r]\<rparr>"
  using assms
  by (auto simp: AMPMessageProcessor_process_message_def Let_def collected_rows_Cons
      split: option.splits)

lemma AMP_rows:
  "in_player_section p \<Longrightarrow>
   \<forall>r \<in> set rows. \<not> AMPStatusParser_is_status_header (strip r) \<and> \<not> is_section_end (strip r) \<Longrightarrow>
   snd (AMPMessageProcessor_process_messages rows p) =
     p\<lparr>collected_clients := collected_clients p @ collected_rows rows\<rparr>"
proof (induction rows arbitrary: p)
  case Nil
  show ?case by simp
next
  case (Cons r rows)
  let ?p1 = "p\<lparr>collected_clients := collected_clients p @ collected_rows [r]\<rparr>"
  have 1: "snd (AMPMessageProcessor_process_message r p) = ?p1"
    using AMP_row_step [of p r] Cons.prems by simp
  have "snd (AMPMessageProcessor_process_messages rows ?p1) =
        ?p1\<lparr>collected_clients := collected_clients ?p1 @ collected_rows rows\<rparr>"
    using Cons.IH [of ?p1] Cons.prems by simp
  moreover have "collected_rows [r] @ collected_rows rows = collected_rows (r # rows)"
    by (simp add: collected_rows_Cons split: option.splits)
  ultimately show ?case using 1
    by (cases "AMPMessageProcessor_process_message r p";
        cases "AMPMessageProcessor_process_messages rows ?p1") simp
qed

lemma end_marker:
  "PLAYER_SECTION_END \<noteq> [] \<and> is_section_end PLAYER_SECTION_END \<and>
   \<not> AMPStatusParser_is_status_header PLAYER_SECTION_END"
  by code_simp

lemma AMP_header_step:
  assumes "AMPStatusParser_is_status_header (strip h)"
  shows "snd (AMPMessageProcessor_process_message h p) =
           p\<lparr>in_player_section := True, collected_clients := []\<rparr>"
proof -
  have "strip h \<noteq> []"
    using assms by (auto simp: AMPStatusParser_is_status_header_def PLAYER_SECTION_START_def)
  with assms show ?thesis by (simp add: AMPMessageProcessor_process_message_def Let_def)
qed

lemma AMP_end_step:
  assumes "in_player_section p" "strip e = PLAYER_SECTION_END"
  shows "fst (AMPMessageProcessor_process_message e p) =
         \<lparr>message_type = STATUS_UPDATE, raw_message = PLAYER_SECTION_END,
          data = [(''clients'', PyList (map PyDict (collected_clients p))),
                  (''status_complete'', PyBool True)]\<rparr>"
  using assms end_marker by (simp add: AMPMessageProcessor_process_message_def Let_def)

lemma AMP_block_complete:
  assumes h: "AMPStatusParser_is_status_header (strip h)"
    and rows: "\<forall>r \<in> set rows. \<not> AMPStatusParser_is_status_header (strip r) \<and>
                 \<not> is_section_end (strip r)"
    and e: "strip e = PLAYER_SECTION_END"
  shows "fst (AMPMessageProcessor_process_message e
                (snd (AMPMessageProcessor_process_messages (h # rows) p))) =
         \<lparr>message_type = STATUS_UPDATE, raw_message = PLAYER_SECTION_END,
          data = [(''clients'', PyList (map PyDict (collected_rows rows))),
                  (''status_complete'', PyBool True)]\<rparr>"
proof -
  let ?p0 = "p\<lparr>in_player_section := True, collected_clients := []\<rparr>"
  have "snd (AMPMessageProcessor_process_messages (h # rows) p) =
        snd (AMPMessageProcessor_process_messages rows ?p0)"
    using AMP_header_step [OF h, of p]
    by (cases "AMPMessageProcessor_process_message h p";
        cases "AMPMessageProcessor_process_messages rows ?p0") simp
  also have "\<dots> = ?p0\<lparr>collected_clients := collected_clients ?p0 @ collected_rows rows\<rparr>"
    using AMP_rows [of ?p0 rows] rows by simp
  finally have s: "snd (AMPMessageProcessor_process_messages (h # rows) p) =
                   p\<lparr>in_player_section := True, collected_clients := collected_rows rows\<rparr>"
    by simp
  show ?thesis
    unfolding s using AMP_end_step [OF _ e, of "p\<lparr>in_player_section := True,
      collected_clients := collected_rows rows\<rparr>"] by simp
qed

lemma status_block_rows:
  "map (\<lambda>c. (map_of c ''client_id'', map_of c ''name'', map_of c ''ip''))
     (List.map_filter parse_client_line status_block) =
     [(Some (PyInt 0), Some (PyStr ''Player1''), Some (PyStr ''192.168.1.100'')),
      (Some (PyInt 1), Some (PyStr ''Player2''), Some (PyStr ''10.0.0.7''))]"
  by code_simp

lemma status_block_accumulated:
  "lines (status_parser after_status_block) = map strip (tl status_block)"
  by code_simp

lemma status_block_end_message:
  "fst (process_message [] after_status_block) =
   \<lparr>message_type = STATUS_UPDATE, raw_message = ''STATUS_COMPLETE'',
    data = [(''client_data'',
             PyList [PyDict [(''client_id'', PyInt 1), (''score'', PyInt 3),
                             (''ping'', PyInt 50), (''name'', PyStr ''Player2''),
                             (''lastmsg'', PyInt 0), (''ip'', PyStr ''10.0.0.7''),
                             (''qport'', PyInt 4242), (''rate'', PyInt 25000),
                             (''type'', PyStr ''HUMAN'')]]),
            (''status_complete'', PyBool True)]\<rparr>"
  by code_simp

lemma single_client_block_end_message:
  "fst (process_message [] after_single_client_block) =
   \<lparr>message_type = STATUS_UPDATE, raw_message = ''STATUS_COMPLETE'',
    data = [(''client_data'', PyList []), (''status_complete'', PyBool True)]\<rparr>"
  by code_simp

lemma single_client_block_rows:
  "map (\<lambda>c. map_of c ''client_id'') (List.map_filter parse_client_line single_client_block) =
     [Some (PyInt 0)]"
  by code_simp

lemma players_block_end_message:
  "map_of (data (fst (AMPMessageProcessor_process_message ''#end'' after_players_block)))
     ''clients'' = Some (PyList (map PyDict (collected_rows (tl players_block))))"
  by code_simp

lemma players_block_rows:
  "map (\<lambda>c. (map_of c ''client_id'', map_of c ''name'', map_of c ''ip''))
     (collected_rows (tl players_block)) =
     [(Some (PyInt 3), Some (PyStr ''quangminh2479''), Some (PyStr ''127.190.6.117'')),
      (Some (PyInt 65535), Some (PyStr []), Some (PyStr ''127.190.6.117''))]"
  by code_simp

text \<open>
  C4.  The claim: the status-complete message of a block carries one record for every
  distinct client id among the rows of the block that parse, with the name and the
  address of its row.  The line-based processor does not do this.  On the output of the
  \<^verbatim>\<open>status\<close> command for two clients (ids 0 and 1; both rows parse), ended by an empty
  line, the lines accumulated for the block are the header, the separator and the two
  rows, stripped (the map line comes before the header and is not accumulated), and the
  status-complete message carries one record, that of client 1: the extraction skips the
  first three accumulated lines, and the third is the row of client 0.  On the same
  output for one client the list is empty.  The list is carried under \<^verbatim>\<open>client_data\<close>.
  The poll-based processor, from which the key \<^verbatim>\<open>clients\<close> and the end marker of the
  claim come, skips no row: on the block of its documentation it carries the record of
  both rows.
\<close>

theorem status_block_first_row_dropped:
  "map (\<lambda>c. (map_of c ''client_id'', map_of c ''name'', map_of c ''ip''))
     (List.map_filter parse_client_line status_block) =
     [(Some (PyInt 0), Some (PyStr ''Player1''), Some (PyStr ''192.168.1.100'')),
      (Some (PyInt 1), Some (PyStr ''Player2''), Some (PyStr ''10.0.0.7''))] \<and>
   lines (status_parser after_status_block) = map strip (tl status_block) \<and>
   fst (process_message [] after_status_block) =
     \<lparr>message_type = STATUS_UPDATE, raw_message = ''STATUS_COMPLETE'',
      data = [(''client_data'',
               PyList [PyDict [(''client_id'', PyInt 1), (''score'', PyInt 3),
                               (''ping'', PyInt 50), (''name'', PyStr ''Player2''),
                               (''lastmsg'', PyInt 0), (''ip'', PyStr ''10.0.0.7''),
                               (''qport'', PyInt 4242), (''rate'', PyInt 25000),
                               (''type'', PyStr ''HUMAN'')]]),
              (''status_complete'', PyBool True)]\<rparr> \<and>
   map (\<lambda>c. map_of c ''client_id'') (List.map_filter parse_client_line single_client_block) =
     [Some (PyInt 0)] \<and>
   fst (process_message [] after_single_client_block) =
     \<lparr>message_type = STATUS_UPDATE, raw_message = ''STATUS_COMPLETE'',
      data = [(''client_data'', PyList []), (''status_complete'', PyBool True)]\<rparr> \<and>
   map_of (data (fst (AMPMessageProcessor_process_message ''#end'' after_players_block)))
     ''clients'' = Some (PyList (map PyDict (collected_rows (tl players_block)))) \<and>
   map (\<lambda>c. (map_of c ''client_id'', map_of c ''name'', map_of c ''ip''))
     (collected_rows (tl players_block)) =
     [(Some (PyInt 3), Some (PyStr ''quangminh2479''), Some (PyStr ''127.190.6.117'')),
      (Some (PyInt 65535), Some (PyStr []), Some (PyStr ''127.190.6.117''))]"
  by (intro conjI status_block_rows status_block_accumulated status_block_end_message
      single_client_block_rows single_client_block_end_message players_block_end_message
      players_block_rows)

lemma shutdown_line: "line_type ''ShutdownGame:'' = SERVER_SHUTDOWN"
  by code_simp

lemma warmup_line: "line_type ''Warmup: 5'' = WARMUP_START"
  by code_simp

lemma game_end_pending: "game_end_since_reset [''Exit: Fraglimit hit.'']"
  by code_simp

lemma noise_line: "line_type ''broadcast: print'' \<noteq> GAME_END"
  by code_simp

theorem shutdown_is_match_end_iff_game_end_pending_witness:
  "line_type ''ShutdownGame:'' = SERVER_SHUTDOWN \<and>
   game_end_since_reset [''Exit: Fraglimit hit.''] \<and>
   map_of (data (fst (process_message ''ShutdownGame:''
      (snd (process_messages [''Exit: Fraglimit hit.''] (init_OAMessageProcessor True))))))
     ''event'' = Some (PyStr ''match_end'') \<and>
   line_type ''Warmup: 5'' = WARMUP_START \<and>
   \<not> recent_fraglimit_hit (snd (process_message ''Warmup: 5''
      (snd (process_messages [''Exit: Fraglimit hit.''] (init_OAMessageProcessor True))))) \<and>
   map_of (data (fst (process_message ''ShutdownGame:''
      (snd (process_messages [''broadcast: print'']
         (snd (process_message ''ShutdownGame:''
            (snd (process_messages [''Exit: Fraglimit hit.'']
               (init_OAMessageProcessor True))))))))))
     ''event'' = Some (PyStr ''warmup_end'')"
proof -
  let ?p = "snd (process_messages [''Exit: Fraglimit hit.''] (init_OAMessageProcessor True))"
  have b: "\<forall>x \<in> set [''broadcast: print'']. line_type x \<noteq> GAME_END"
    using noise_line by simp
  show ?thesis
    using shutdown_line warmup_line game_end_pending b
      shutdown_is_match_end_iff_game_end_pending
        [where l = "''ShutdownGame:''" and history = "[''Exit: Fraglimit hit.'']" and cb = True
           and l' = "''ShutdownGame:''" and between = "[''broadcast: print'']" and p = ?p]
      shutdown_is_match_end_iff_game_end_pending
        [where l = "''Warmup: 5''" and history = "[''Exit: Fraglimit hit.'']" and cb = True
           and l' = "''ShutdownGame:''" and between = "[''broadcast: print'']" and p = ?p]
    by (auto split: prod.splits)
qed


end
